theory Spec2Isabelle
  imports Complex_Main "HOL-Library.Log_Nat"
begin

section \<open>JavaScript numbers\<close>

text \<open>
  The handlers of \<^verbatim>\<open>routes/flashcards.js\<close> compute with JavaScript numbers, which are IEEE 754
  double-precision values. A finite double is a real number, and every arithmetic operator
  returns the exact result rounded to the nearest double, ties to the even significand.

  \<open>rd\<close> is that rounding. A non-negative double is an integer multiple of \<open>2 ^ -1074\<close> with at
  most 53 significant bits, so \<open>rd_pos\<close> scales by \<open>2 ^ 1074\<close>, reads the bit length of the
  integer part and rounds to a multiple of the unit in the last place of that binade.
  Overflow to \<open>Infinity\<close> (results of \<open>2 ^ 1024\<close> and more) is not represented. Only
  \<^verbatim>\<open>parseInt\<close> on more than 308 digits could reach it, and the window then starts at an
  Invalid Date with or without it. \<open>NaN\<close> is \<open>None\<close> where it can arise (\<^verbatim>\<open>parseInt\<close>).
\<close>

definition round_even :: "real \<Rightarrow> int" where
  "round_even x =
     (let f = \<lfloor>x\<rfloor>; r = x - of_int f
      in if r < 1 / 2 then f
         else if 1 / 2 < r then f + 1
         else if even f then f else f + 1)"

definition denorm :: real where
  "denorm = 2 ^ 1074"

definition rd_pos :: "real \<Rightarrow> real" where
  "rd_pos q =
     (let Q = q * denorm;
          L = bitlen \<lfloor>Q\<rfloor>;
          u = (if 53 < L then 2 ^ nat (L - 53) else 1)
      in of_int (round_even (Q / of_int u) * u) / denorm)"

definition rd :: "real \<Rightarrow> real" where
  "rd q = (if q < 0 then - rd_pos (- q) else rd_pos q)"

definition js_add :: "real \<Rightarrow> real \<Rightarrow> real" where
  "js_add a b = rd (a + b)"

definition js_sub :: "real \<Rightarrow> real \<Rightarrow> real" where
  "js_sub a b = rd (a - b)"

definition js_mul :: "real \<Rightarrow> real \<Rightarrow> real" where
  "js_mul a b = rd (a * b)"

definition js_div :: "real \<Rightarrow> real \<Rightarrow> real" where
  "js_div a b = rd (a / b)"

text \<open>
  \<^verbatim>\<open>Math.round\<close> returns the nearest integer, a tie going towards \<open>+\<infinity>\<close>; \<^verbatim>\<open>Math.floor\<close> is the
  floor. Both are exact on a finite double.
\<close>

definition Math_round :: "real \<Rightarrow> int" where
  "Math_round x = \<lfloor>x + 1 / 2\<rfloor>"

definition Math_floor :: "real \<Rightarrow> int" where
  "Math_floor x = \<lfloor>x\<rfloor>"


section \<open>Documents\<close>

text \<open>
  An \<^verbatim>\<open>ObjectId\<close> is a \<open>nat\<close>, the number that its 24 hexadecimal digits denote; a
  \<^verbatim>\<open>Date\<close> is its time value, the integer number of milliseconds since the epoch.

  The handlers read and write the fields below. The Mongoose schema of \<^verbatim>\<open>StudySession\<close> is
  not among the sources, and the two schemas under \<^verbatim>\<open>models/\<close> declare none of the paths
  \<open>statistics\<close>, \<open>settings\<close>, \<open>createdBy\<close>, \<open>isPublic\<close> and \<open>deck\<close> that the handlers of
  \<^verbatim>\<open>routes/flashcards.js\<close> use (\<^verbatim>\<open>Flashcard.js\<close> declares the reference to the deck as \<open>deckId\<close>,
  which \<^verbatim>\<open>flashcardController\<close> writes). The records hold the paths as the handlers name
  them.
\<close>

type_synonym oid = nat
type_synonym date = int

record deck_settings =
  randomOrder :: bool

record deck_statistics =
  totalCards :: int
  totalStudyTime :: int
  averageScore :: int

record deck =
  deck_id :: oid
  deck_createdBy :: oid
  deck_name :: string
  deck_description :: string
  deck_category :: string
  isPublic :: bool
  color :: string
  settings :: deck_settings
  statistics :: deck_statistics

text \<open>
  \<open>card_deck\<close> is the deck that the card references, the path \<open>deck\<close> of the routes and the
  path \<open>deckId\<close> of \<^verbatim>\<open>flashcardController\<close>. \<open>card_createdBy\<close> is \<open>None\<close> on a card stored without
  the path, as \<^verbatim>\<open>flashcardController\<close> does.
\<close>

record card_statistics =
  totalViews :: int
  correctAnswers :: int
  incorrectAnswers :: int

record flashcard =
  card_id :: oid
  card_deck :: oid
  card_createdBy :: "oid option"
  question :: string
  answer :: string
  card_category :: string
  difficulty :: string
  tags :: "string list"
  card_stats :: card_statistics

text \<open>
  One entry of \<^verbatim>\<open>studySession.flashcards\<close>; \<open>isCorrect = None\<close> is the \<^verbatim>\<open>null\<close> of an
  unanswered card.
\<close>

record session_card =
  flashcard :: oid
  isCorrect :: "bool option"
  timeSpent :: real
  attempts :: nat

text \<open>
  \<^verbatim>\<open>studySession.score\<close>. The two tallies are JavaScript numbers that only ever grow by one,
  exact up to \<open>2 ^ 53\<close>; they are natural numbers here. \<open>percentage = None\<close> is
  \<^verbatim>\<open>undefined\<close>.
\<close>

record session_score =
  correct :: nat
  incorrect :: nat
  percentage :: "int option"

record study_session =
  session_id :: oid
  user :: oid
  session_deck :: oid
  flashcards :: "session_card list"
  startTime :: date
  endTime :: "date option"
  totalDuration :: "int option"
  isCompleted :: bool
  score :: session_score
  createdAt :: date

text \<open>The three collections, each in insertion order.\<close>

record db =
  deckColl :: "deck list"
  cardColl :: "flashcard list"
  sessionColl :: "study_session list"

text \<open>
  The responses that are not a success: 404, 400 \<^verbatim>\<open>No flashcards found in this deck\<close>,
  400 \<^verbatim>\<open>Flashcard not found in this session\<close>, the 500 of the \<^verbatim>\<open>catch\<close> block, the
  400 \<^verbatim>\<open>Validation error\<close> of a failed \<^verbatim>\<open>express-validator\<close> check, and 403.

  Where a handler takes an identifier as an \<open>oid\<close>, and the body's \<open>isCorrect\<close> and \<open>timeSpent\<close>
  as a boolean and a number, the \<^verbatim>\<open>express-validator\<close> checks of its route (\<^verbatim>\<open>isMongoId\<close>,
  \<^verbatim>\<open>isBoolean\<close>, \<^verbatim>\<open>isNumeric\<close>) are what the argument types say: a request that fails them
  never reaches the code modelled there (the string spellings of a boolean and of a number
  that the validators also accept are not modelled). The question, the answer and the
  difficulty of a card are likewise taken to have passed the checks of their route. The \<open>flashcardId\<close> of
  PUT /study/:sessionId is compared as a string with \<^verbatim>\<open>toString()\<close> of the stored references:
  \<open>recordOutcome\<close> takes the identifier that a matching string denotes, and
  \<open>recordOutcomeRequest\<close> takes the string.
\<close>

datatype error =
  NotFound | EmptyDeck | InvalidReference | ServerError | InvalidArgument | Forbidden

type_synonym 'a response = "(error + 'a) \<times> db"


section \<open>Store operations\<close>

text \<open>
  \<^verbatim>\<open>findOne\<close> is \<^const>\<open>List.find\<close>, \<^verbatim>\<open>find\<close> and \<^verbatim>\<open>deleteMany\<close> are \<^const>\<open>filter\<close>.
  \<^verbatim>\<open>findByIdAndUpdate\<close>, \<^verbatim>\<open>save\<close> and \<^verbatim>\<open>findByIdAndDelete\<close> act on the first document that
  matches, and do nothing when there is none.
\<close>

fun updateOne :: "('a \<Rightarrow> bool) \<Rightarrow> ('a \<Rightarrow> 'a) \<Rightarrow> 'a list \<Rightarrow> 'a list" where
  "updateOne P f [] = []"
| "updateOne P f (x # xs) = (if P x then f x # xs else x # updateOne P f xs)"


text \<open>\<^verbatim>\<open>Array.prototype.findIndex\<close>; \<open>None\<close> is its \<open>-1\<close>.\<close>

fun findIndex :: "('a \<Rightarrow> bool) \<Rightarrow> 'a list \<Rightarrow> nat option" where
  "findIndex P [] = None"
| "findIndex P (x # xs) =
     (if P x then Some 0 else map_option Suc (findIndex P xs))"

definition findDeckForUser :: "oid \<Rightarrow> oid \<Rightarrow> db \<Rightarrow> deck option" where
  "findDeckForUser deckId uid d =
     find (\<lambda>k. deck_id k = deckId \<and> (deck_createdBy k = uid \<or> isPublic k)) (deckColl d)"


definition findSession :: "oid \<Rightarrow> oid \<Rightarrow> db \<Rightarrow> study_session option" where
  "findSession sessionId uid d =
     find (\<lambda>s. session_id s = sessionId \<and> user s = uid) (sessionColl d)"

definition saveSession :: "study_session \<Rightarrow> db \<Rightarrow> db" where
  "saveSession s d =
     d\<lparr>sessionColl := updateOne (\<lambda>x. session_id x = session_id s) (\<lambda>_. s) (sessionColl d)\<rparr>"

definition cardsOfDeck :: "oid \<Rightarrow> db \<Rightarrow> flashcard list" where
  "cardsOfDeck deckId d = filter (\<lambda>c. card_deck c = deckId) (cardColl d)"


section \<open>Study sessions\<close>

subsection \<open>POST /study/:deckId\<close>

text \<open>
  Modelled from the spec: the defaults of the absent \<^verbatim>\<open>StudySession\<close> schema. The handler
  passes \<open>user\<close>, \<open>deck\<close> and \<open>flashcards\<close> to \<^verbatim>\<open>StudySession.create\<close>; the start timestamp is
  set at creation, the end timestamp and the duration are absent, the completion flag is
  false and the score is zero, zero, undefined.
\<close>

definition newSession :: "oid \<Rightarrow> date \<Rightarrow> oid \<Rightarrow> oid \<Rightarrow> session_card list \<Rightarrow> study_session" where
  "newSession newId now uid deckId cs =
     \<lparr>session_id = newId, user = uid, session_deck = deckId, flashcards = cs,
      startTime = now, endTime = None, totalDuration = None, isCompleted = False,
      score = \<lparr>correct = 0, incorrect = 0, percentage = None\<rparr>, createdAt = now\<rparr>"

definition unanswered :: "flashcard \<Rightarrow> session_card" where
  "unanswered c = \<lparr>flashcard = card_id c, isCorrect = None, timeSpent = 0, attempts = 0\<rparr>"

text \<open>
  \<open>shuffle\<close> stands for \<^verbatim>\<open>flashcards.sort(() => Math.random() - 0.5)\<close>, \<open>newId\<close> for the
  identifier the store gives the new document, \<open>now\<close> for the clock.
\<close>

definition startSession ::
  "(flashcard list \<Rightarrow> flashcard list) \<Rightarrow> oid \<Rightarrow> date \<Rightarrow> oid \<Rightarrow> oid \<Rightarrow> db \<Rightarrow> study_session response"
where
  "startSession shuffle newId now uid deckId d =
     (case findDeckForUser deckId uid d of
        None \<Rightarrow> (Inl NotFound, d)
      | Some k \<Rightarrow>
          let cs = cardsOfDeck deckId d in
          if length cs = 0 then (Inl EmptyDeck, d)
          else
            let cs' = (if randomOrder (settings k) then shuffle cs else cs);
                s = newSession newId now uid deckId (map unanswered cs')
            in (Inr s, d\<lparr>sessionColl := sessionColl d @ [s]\<rparr>))"

subsection \<open>PUT /study/:sessionId\<close>

definition answerCard :: "bool \<Rightarrow> real \<Rightarrow> session_card \<Rightarrow> session_card" where
  "answerCard b t c =
     c\<lparr>isCorrect := Some b, timeSpent := js_add (timeSpent c) t, attempts := attempts c + 1\<rparr>"

definition tally :: "bool \<Rightarrow> session_score \<Rightarrow> session_score" where
  "tally b sc = (if b then sc\<lparr>correct := correct sc + 1\<rparr> else sc\<lparr>incorrect := incorrect sc + 1\<rparr>)"

definition incAnswers :: "bool \<Rightarrow> flashcard \<Rightarrow> flashcard" where
  "incAnswers b c =
     (if b then c\<lparr>card_stats := (card_stats c)\<lparr>correctAnswers := correctAnswers (card_stats c) + 1\<rparr>\<rparr>
      else c\<lparr>card_stats := (card_stats c)\<lparr>incorrectAnswers := incorrectAnswers (card_stats c) + 1\<rparr>\<rparr>)"

text \<open>
  \<^verbatim>\<open>Math.round((score.correct / totalAnswered) * 100)\<close>: the quotient is rounded to a double,
  the product is rounded to a double, and that double is rounded to an integer.
\<close>

definition calcPercentage :: "nat \<Rightarrow> nat \<Rightarrow> int" where
  "calcPercentage c totalAnswered =
     Math_round (js_mul (js_div (of_nat c) (of_nat totalAnswered)) 100)"

text \<open>
  \<open>incOk\<close> says whether the awaited \<^verbatim>\<open>Flashcard.findByIdAndUpdate\<close> resolves. When it rejects,
  control passes to the \<^verbatim>\<open>catch\<close> block: the changes made to the loaded session are dropped
  with it, since \<^verbatim>\<open>studySession.save()\<close> is never reached.
\<close>

definition recordOutcome ::
  "bool \<Rightarrow> oid \<Rightarrow> oid \<Rightarrow> oid \<Rightarrow> bool \<Rightarrow> real \<Rightarrow> db \<Rightarrow> study_session response"
where
  "recordOutcome incOk uid sessionId flashcardId b t d =
     (case findSession sessionId uid d of
        None \<Rightarrow> (Inl NotFound, d)
      | Some s \<Rightarrow>
          (case findIndex (\<lambda>c. flashcard c = flashcardId) (flashcards s) of
             None \<Rightarrow> (Inl InvalidReference, d)
           | Some i \<Rightarrow>
               let cs = (flashcards s)[i := answerCard b t (flashcards s ! i)];
                   sc = tally b (score s)
               in if \<not> incOk then (Inl ServerError, d)
                  else
                    let d1 = d\<lparr>cardColl :=
                               updateOne (\<lambda>c. card_id c = flashcardId) (incAnswers b) (cardColl d)\<rparr>;
                        totalAnswered = correct sc + incorrect sc;
                        s' = s\<lparr>flashcards := cs,
                               score := sc\<lparr>percentage := Some (calcPercentage (correct sc) totalAnswered)\<rparr>\<rparr>
                    in (Inr s', saveSession s' d1)))"

subsection \<open>PUT /study/:sessionId/complete\<close>

text \<open>
  The \<^verbatim>\<open>$inc\<close> on the deck, by a number of minutes and a percentage.
\<close>

definition incDeckStudy :: "int \<Rightarrow> int \<Rightarrow> deck \<Rightarrow> deck" where
  "incDeckStudy minutes pct k =
     k\<lparr>statistics := (statistics k)
         \<lparr>totalStudyTime := totalStudyTime (statistics k) + minutes,
          averageScore := averageScore (statistics k) + pct\<rparr>\<rparr>"

definition calcDuration :: "date \<Rightarrow> date \<Rightarrow> int" where
  "calcDuration end start = Math_floor (js_div (js_sub (of_int end) (of_int start)) 1000)"

text \<open>
  The session is saved first, then the deck is incremented. With no outcome recorded,
  \<open>score.percentage\<close> is undefined, and \<^verbatim>\<open>$inc\<close> refuses an increment that is no number: the
  awaited update rejects, and the \<^verbatim>\<open>catch\<close> block answers 500 with the session already saved
  and the deck untouched.
\<close>

definition completeSession :: "date \<Rightarrow> oid \<Rightarrow> oid \<Rightarrow> db \<Rightarrow> study_session response" where
  "completeSession now uid sessionId d =
     (case findSession sessionId uid d of
        None \<Rightarrow> (Inl NotFound, d)
      | Some s \<Rightarrow>
          let duration = calcDuration now (startTime s);
              s' = s\<lparr>endTime := Some now, totalDuration := Some duration, isCompleted := True\<rparr>;
              d1 = saveSession s' d
          in (case percentage (score s') of
                None \<Rightarrow> (Inl ServerError, d1)
              | Some pct \<Rightarrow>
                  (Inr s', d1\<lparr>deckColl :=
                     updateOne (\<lambda>k. deck_id k = session_deck s')
                       (incDeckStudy (Math_floor (js_div (of_int duration) 60)) pct)
                       (deckColl d1)\<rparr>)))"

text \<open>A client that submits one outcome after another; \<open>None\<close> when a call is refused.\<close>

fun recordOutcomes :: "oid \<Rightarrow> oid \<Rightarrow> (oid \<times> bool \<times> real) list \<Rightarrow> db \<Rightarrow> db option" where
  "recordOutcomes uid sessionId [] d = Some d"
| "recordOutcomes uid sessionId ((flashcardId, b, t) # calls) d =
     (case recordOutcome True uid sessionId flashcardId b t d of
        (Inl e, _) \<Rightarrow> None
      | (Inr s, d') \<Rightarrow> recordOutcomes uid sessionId calls d')"


section \<open>Statistics\<close>

subsection \<open>The time range\<close>


definition digitVal :: "char \<Rightarrow> nat option" where
  "digitVal c =
     (let n = of_char c :: nat
      in if 48 \<le> n \<and> n \<le> 57 then Some (n - 48)
         else if 97 \<le> n \<and> n \<le> 122 then Some (n - 87)
         else if 65 \<le> n \<and> n \<le> 90 then Some (n - 55)
         else None)"






subsection \<open>GET /statistics\<close>

record overview =
  ov_totalDecks :: nat
  ov_totalFlashcards :: nat
  ov_totalSessions :: nat
  ov_totalStudyTime :: "int option"
  ov_averageScore :: "int option"





section \<open>Decks and flashcards\<close>


subsection \<open>PUT /decks/:id, DELETE /decks/:id\<close>



subsection \<open>POST /decks/:deckId/cards, PUT /:id, DELETE /:id\<close>






subsection \<open>flashcardController.addFlashcard\<close>


subsection \<open>GET /:id\<close>

text \<open>
  \<^verbatim>\<open>isMongoId\<close> of the validator: a string of 24 characters that is hexadecimal, which allows
  the prefixes \<^verbatim>\<open>0x\<close> and \<^verbatim>\<open>0h\<close>.
\<close>

definition isHexDigit :: "char \<Rightarrow> bool" where
  "isHexDigit c = (case digitVal c of None \<Rightarrow> False | Some v \<Rightarrow> v < 16)"

definition isHexadecimal :: "string \<Rightarrow> bool" where
  "isHexadecimal s =
     (let digits = (if take 2 s \<in> set [''0x'', ''0X'', ''0h'', ''0H''] then drop 2 s else s)
      in digits \<noteq> [] \<and> list_all isHexDigit digits)"

definition isMongoId :: "string \<Rightarrow> bool" where
  "isMongoId s \<longleftrightarrow> isHexadecimal s \<and> length s = 24"





section \<open>The routes of GET\<close>


datatype get_route = GetDecks | GetDeck | GetDeckCards | GetFlashcard | GetStatistics





text \<open>
  A GET request of an authenticated user, with the \<open>range\<close> of its query. The handlers of
  the three deck routes are not modelled: \<open>DeckAnswer\<close> says which of them answers.
\<close>

datatype answer = Card flashcard | Report overview | DeckAnswer get_route



section \<open>The request of PUT /study/:sessionId\<close>

text \<open>
  \<^verbatim>\<open>ObjectId.prototype.toString\<close>: the 24 hexadecimal digits of the identifier, in lower case.
\<close>

definition hexChar :: "nat \<Rightarrow> char" where
  "hexChar v = (if v < 10 then char_of (48 + v) else char_of (87 + v))"

fun hexString :: "nat \<Rightarrow> nat \<Rightarrow> string" where
  "hexString 0 n = []"
| "hexString (Suc k) n = hexString k (n div 16) @ [hexChar (n mod 16)]"

definition toString :: "oid \<Rightarrow> string" where
  "toString i = hexString 24 i"

text \<open>
  The request with the \<open>flashcardId\<close> of its body as the client spells it. The validation comes
  first. The handler then looks for the first card record whose reference has that very
  string as its \<^verbatim>\<open>toString()\<close> (lines 670 to 672), and from there on it works on the
  identifier that the string denotes, which is the reference of that record.
\<close>

definition recordOutcomeRequest ::
  "bool \<Rightarrow> oid \<Rightarrow> oid \<Rightarrow> string \<Rightarrow> bool \<Rightarrow> real \<Rightarrow> db \<Rightarrow> study_session response"
where
  "recordOutcomeRequest incOk uid sessionId flashcardId b t d =
     (if \<not> isMongoId flashcardId then (Inl InvalidArgument, d)
      else
        (case findSession sessionId uid d of
           None \<Rightarrow> (Inl NotFound, d)
         | Some s \<Rightarrow>
             (case findIndex (\<lambda>c. toString (flashcard c) = flashcardId) (flashcards s) of
                None \<Rightarrow> (Inl InvalidReference, d)
              | Some i \<Rightarrow>
                  recordOutcome incOk uid sessionId (flashcard (flashcards s ! i)) b t d)))"

text \<open>The digits that \<open>toString\<close> yields, and the upper case of a letter.\<close>

definition isLowerHex :: "char \<Rightarrow> bool" where
  "isLowerHex c \<longleftrightarrow> (48 \<le> (of_char c :: nat) \<and> (of_char c :: nat) \<le> 57)
     \<or> (97 \<le> (of_char c :: nat) \<and> (of_char c :: nat) \<le> 102)"

definition upperCase :: "char \<Rightarrow> char" where
  "upperCase c =
     (if 97 \<le> (of_char c :: nat) \<and> (of_char c :: nat) \<le> 122 then char_of (of_char c - 32 :: nat)
      else c)"


section \<open>Requests without a failure of the store\<close>


text \<open>The count that GET /decks/:id reports as \<open>flashcardCount\<close>.\<close>

definition flashcardCount :: "oid \<Rightarrow> db \<Rightarrow> nat" where
  "flashcardCount deckId d = length (filter (\<lambda>c. card_deck c = deckId) (cardColl d))"


section \<open>Sequences of calls and sample data\<close>

text \<open>The numbers of correct and of incorrect submissions in a sequence of calls.\<close>

definition corrects :: "(oid \<times> bool \<times> real) list \<Rightarrow> nat" where
  "corrects calls = length (filter (\<lambda>(c, b, t). b) calls)"

definition incorrects :: "(oid \<times> bool \<times> real) list \<Rightarrow> nat" where
  "incorrects calls = length (filter (\<lambda>(c, b, t). \<not> b) calls)"

text \<open>
  User 7 owns the private deck 1 with the cards 3 and 4, and the deck 2 with no card.
  Session 10 was started at time 0 on deck 1, and card 3 was answered correctly in it after
  five seconds; \<open>ex_db_done\<close> is the store once that session was completed at time 5000.
\<close>

definition ex_deck :: deck where
  "ex_deck =
     \<lparr>deck_id = 1, deck_createdBy = 7, deck_name = ''Math'', deck_description = [],
      deck_category = ''school'', isPublic = False, color = ''#3B82F6'',
      settings = \<lparr>randomOrder = True\<rparr>,
      statistics = \<lparr>totalCards = 2, totalStudyTime = 0, averageScore = 0\<rparr>\<rparr>"

definition ex_empty_deck :: deck where
  "ex_empty_deck =
     \<lparr>deck_id = 2, deck_createdBy = 7, deck_name = ''Empty'', deck_description = [],
      deck_category = ''school'', isPublic = False, color = ''#3B82F6'',
      settings = \<lparr>randomOrder = False\<rparr>,
      statistics = \<lparr>totalCards = 0, totalStudyTime = 0, averageScore = 0\<rparr>\<rparr>"

definition ex_card :: "oid \<Rightarrow> int \<Rightarrow> flashcard" where
  "ex_card i n =
     \<lparr>card_id = i, card_deck = 1, card_createdBy = Some 7, question = ''q'', answer = ''a'',
      card_category = ''school'', difficulty = ''medium'', tags = [],
      card_stats = \<lparr>totalViews = 0, correctAnswers = n, incorrectAnswers = 0\<rparr>\<rparr>"

definition ex_db :: db where
  "ex_db = \<lparr>deckColl = [ex_deck, ex_empty_deck], cardColl = [ex_card 3 0, ex_card 4 0],
            sessionColl = []\<rparr>"

definition ex_session :: study_session where
  "ex_session =
     \<lparr>session_id = 10, user = 7, session_deck = 1,
      flashcards = [\<lparr>flashcard = 3, isCorrect = Some True, timeSpent = 5, attempts = 1\<rparr>,
                    \<lparr>flashcard = 4, isCorrect = None, timeSpent = 0, attempts = 0\<rparr>],
      startTime = 0, endTime = None, totalDuration = None, isCompleted = False,
      score = \<lparr>correct = 1, incorrect = 0, percentage = Some 100\<rparr>, createdAt = 0\<rparr>"

definition ex_db_open :: db where
  "ex_db_open = \<lparr>deckColl = [ex_deck, ex_empty_deck], cardColl = [ex_card 3 1, ex_card 4 0],
                 sessionColl = [ex_session]\<rparr>"

definition ex_completed :: study_session where
  "ex_completed = ex_session\<lparr>endTime := Some 5000, totalDuration := Some 5, isCompleted := True\<rparr>"

definition ex_db_done :: db where
  "ex_db_done =
     \<lparr>deckColl = [ex_deck\<lparr>statistics := \<lparr>totalCards = 2, totalStudyTime = 0, averageScore = 100\<rparr>\<rparr>,
                  ex_empty_deck],
      cardColl = [ex_card 3 1, ex_card 4 0],
      sessionColl = [ex_completed]\<rparr>"

text \<open>Session 11 was started at time 0 on deck 1, and no card was answered in it.\<close>

definition ex_fresh :: study_session where
  "ex_fresh = newSession 11 0 7 1 [unanswered (ex_card 3 0), unanswered (ex_card 4 0)]"

definition ex_db_fresh :: db where
  "ex_db_fresh = \<lparr>deckColl = [ex_deck, ex_empty_deck], cardColl = [ex_card 3 0, ex_card 4 0],
                  sessionColl = [ex_fresh]\<rparr>"

text \<open>
  Session 12 on the cards 4 and 171, whose identifier has the digits \<^verbatim>\<open>ab\<close>; it is completed,
  with no card answered.
\<close>

definition ex_hex_session :: study_session where
  "ex_hex_session =
     \<lparr>session_id = 12, user = 7, session_deck = 1,
      flashcards = [\<lparr>flashcard = 4, isCorrect = None, timeSpent = 0, attempts = 0\<rparr>,
                    \<lparr>flashcard = 171, isCorrect = None, timeSpent = 0, attempts = 0\<rparr>],
      startTime = 0, endTime = Some 5000, totalDuration = Some 5, isCompleted = True,
      score = \<lparr>correct = 0, incorrect = 0, percentage = None\<rparr>, createdAt = 0\<rparr>"

definition ex_db_hex :: db where
  "ex_db_hex = \<lparr>deckColl = [ex_deck], cardColl = [ex_card 4 0, ex_card 171 0],
                sessionColl = [ex_hex_session]\<rparr>"

text \<open>Card 4 answered correctly after two seconds, in the open and in the completed session.\<close>

definition ex_answered :: "study_session \<Rightarrow> study_session" where
  "ex_answered s =
     s\<lparr>flashcards := [\<lparr>flashcard = 3, isCorrect = Some True, timeSpent = 5, attempts = 1\<rparr>,
                      \<lparr>flashcard = 4, isCorrect = Some True, timeSpent = 2, attempts = 1\<rparr>],
       score := \<lparr>correct = 2, incorrect = 0, percentage = Some 100\<rparr>\<rparr>"

text \<open>
  A deck of forty cards, 100 to 139, a session 10 started on it, and forty calls on distinct
  cards: cards 100 to 122 answered correctly, cards 123 to 139 answered incorrectly.
\<close>

definition ex_db40 :: db where
  "ex_db40 =
     \<lparr>deckColl = [ex_deck\<lparr>statistics := \<lparr>totalCards = 40, totalStudyTime = 0, averageScore = 0\<rparr>\<rparr>],
      cardColl = map (\<lambda>i. ex_card i 0) [100..<140], sessionColl = []\<rparr>"

definition ex_calls40 :: "(oid \<times> bool \<times> real) list" where
  "ex_calls40 = map (\<lambda>i. (i, True, 1)) [100..<123] @ map (\<lambda>i. (i, False, 1)) [123..<140]"

text \<open>
  The percentage as the specification words it: \<open>100 * k / (k + m)\<close> rounded to the nearest
  integer. At 23 and 17 the quotient is 57.5, which rounds to 58 whether a tie goes up or
  to the even neighbour.
\<close>

definition spec_percentage :: "nat \<Rightarrow> nat \<Rightarrow> int" where
  "spec_percentage k m = Math_round (100 * of_nat k / of_nat (k + m))"


section \<open>The counter of cards\<close>




section \<open>Rounding to a double\<close>

lemma round_even_of_int [simp]: "round_even (of_int i) = i"
  by (simp add: round_even_def)

lemma round_even_ge: "of_int n \<le> x \<Longrightarrow> n \<le> round_even x"
proof -
  assume "of_int n \<le> x"
  then have "n \<le> \<lfloor>x\<rfloor>" by (simp add: le_floor_iff)
  then show ?thesis by (simp add: round_even_def Let_def)
qed

lemma round_even_le: "x \<le> of_int n \<Longrightarrow> round_even x \<le> n"
proof (cases "x = of_int n")
  case True
  then show ?thesis by simp
next
  case False
  assume "x \<le> of_int n"
  with False have "x < of_int n" by simp
  then have "\<lfloor>x\<rfloor> < n" by (simp add: floor_less_iff)
  then show ?thesis by (simp add: round_even_def Let_def)
qed

lemma round_even_near: "\<bar>of_int (round_even x) - x\<bar> \<le> 1 / 2"
  unfolding round_even_def Let_def
  by (auto simp: abs_if) linarith+

lemma denorm_pos [simp]: "0 < denorm"
  by (simp add: denorm_def)

lemma bitlen_eqI:
  assumes "2 ^ j \<le> x" and "x < 2 ^ Suc j"
  shows "bitlen x = int j + 1"
proof -
  have "(2::nat) ^ j \<le> nat x"
    using assms(1) by (simp add: le_nat_iff)
  then have lo: "Suc j \<le> floorlog 2 (nat x)"
    by (rule floorlog_ge_SucI) simp
  have "0 \<le> x"
    using assms(1) by (rule order_trans[rotated]) simp
  then have "nat x < 2 ^ Suc j"
    using assms(2) by (simp add: nat_less_iff)
  then have "floorlog 2 (nat x) \<le> Suc j"
    by (intro floorlog_leI) simp_all
  with lo show ?thesis
    by (simp add: bitlen_def)
qed

lemma rd_pos_binade:
  assumes "2 ^ j \<le> q * denorm" and "q * denorm < 2 ^ Suc j" and "53 \<le> j"
  shows "rd_pos q = of_int (round_even (q * denorm / 2 ^ (j - 52))) * 2 ^ (j - 52) / denorm"
proof -
  have "(2::int) ^ j \<le> \<lfloor>q * denorm\<rfloor>"
    using assms(1) by (simp add: le_floor_iff)
  moreover have "\<lfloor>q * denorm\<rfloor> < (2::int) ^ Suc j"
    using assms(2) by (simp add: floor_less_iff)
  ultimately have "bitlen \<lfloor>q * denorm\<rfloor> = int j + 1"
    by (rule bitlen_eqI)
  moreover have "nat (int j + 1 - 53) = j - 52"
    using assms(3) by simp
  ultimately show ?thesis
    using assms(3) by (simp add: rd_pos_def Let_def)
qed

lemma rd_pos_unit:
  "\<exists>i. rd_pos q = of_int (round_even (q * denorm / 2 ^ i)) * 2 ^ i / denorm
       \<and> (i = 0 \<or> 2 ^ (i + 52) \<le> q * denorm)"
proof (cases "53 < bitlen \<lfloor>q * denorm\<rfloor>")
  case False
  then have "rd_pos q = of_int (round_even (q * denorm / 2 ^ 0)) * 2 ^ 0 / denorm"
    by (simp add: rd_pos_def Let_def)
  then show ?thesis by blast
next
  case True
  define L where "L = bitlen \<lfloor>q * denorm\<rfloor>"
  define i where "i = nat (L - 53)"
  have pos: "0 < \<lfloor>q * denorm\<rfloor>"
    using True bitlen_eq_zero_iff[of "\<lfloor>q * denorm\<rfloor>"] by (cases "0 < \<lfloor>q * denorm\<rfloor>") auto
  have "nat (L - 1) = i + 52"
    using True by (simp add: i_def L_def)
  with bitlen_bounds[OF pos] have "(2::int) ^ (i + 52) \<le> \<lfloor>q * denorm\<rfloor>"
    by (simp add: L_def)
  then have "2 ^ (i + 52) \<le> q * denorm"
    by (simp add: le_floor_iff)
  moreover have "rd_pos q = of_int (round_even (q * denorm / 2 ^ i)) * 2 ^ i / denorm"
    using True by (simp add: rd_pos_def Let_def i_def L_def)
  ultimately show ?thesis by blast
qed

text \<open>Below \<open>2 ^ e\<close> the unit in the last place is at most \<open>2 ^ (e - 53)\<close>.\<close>

lemma rd_pos_unit_bound:
  assumes "q < 2 ^ e"
  obtains i where "rd_pos q = of_int (round_even (q * denorm / 2 ^ i)) * 2 ^ i / denorm"
    and "i \<le> e + 1021"
proof -
  obtain i where n: "rd_pos q = of_int (round_even (q * denorm / 2 ^ i)) * 2 ^ i / denorm"
    and b: "i = 0 \<or> 2 ^ (i + 52) \<le> q * denorm"
    using rd_pos_unit[of q] by blast
  have "i \<le> e + 1021"
  proof (rule ccontr)
    assume "\<not> i \<le> e + 1021"
    then have *: "e + 1074 \<le> i + 52" by simp
    then have "(2::real) ^ (e + 1074) \<le> 2 ^ (i + 52)"
      by (intro power_increasing) simp_all
    also have "\<dots> \<le> q * denorm"
      using b * by auto
    also have "\<dots> < 2 ^ e * denorm"
      using assms by (intro mult_strict_right_mono denorm_pos)
    also have "\<dots> = 2 ^ (e + 1074)"
      unfolding denorm_def power_add ..
    finally show False by simp
  qed
  with n that show thesis by blast
qed

lemma denorm_split: "i \<le> 1074 \<Longrightarrow> denorm = 2 ^ (1074 - i) * 2 ^ i"
  unfolding denorm_def by (simp flip: power_add)

text \<open>Integers below \<open>2 ^ 53\<close> are doubles.\<close>

lemma rd_pos_of_int:
  assumes "0 \<le> i" and "i < 2 ^ 53"
  shows "rd_pos (of_int i) = of_int i"
proof -
  have "real_of_int i < real_of_int (2 ^ 53)"
    using assms(2) by (simp only: of_int_less_iff)
  then have "real_of_int i < 2 ^ 53"
    by simp
  then obtain n where n: "rd_pos (of_int i) = of_int (round_even (of_int i * denorm / 2 ^ n)) * 2 ^ n / denorm"
    and b: "n \<le> 53 + 1021"
    by (rule rd_pos_unit_bound)
  from b have d: "denorm = 2 ^ (1074 - n) * 2 ^ n"
    by (intro denorm_split) simp
  have e: "of_int i * denorm / 2 ^ n = of_int (i * 2 ^ (1074 - n))"
    by (subst d) simp
  show ?thesis
    unfolding n e round_even_of_int by (subst d) simp
qed

lemma rd_of_int:
  assumes "\<bar>i\<bar> < 2 ^ 53"
  shows "rd (of_int i) = of_int i"
proof (cases "i < 0")
  case True
  then have "rd_pos (of_int (- i)) = of_int (- i)"
    using assms by (intro rd_pos_of_int) simp_all
  with True show ?thesis
    by (simp add: rd_def)
next
  case False
  then show ?thesis
    using assms by (simp add: rd_def rd_pos_of_int)
qed

lemma rd_of_nat: "n < 2 ^ 53 \<Longrightarrow> rd (of_nat n) = of_nat n"
  using rd_of_int[of "int n"] by (simp flip: of_nat_power)

lemma rd_numeral: "numeral n < (2::int) ^ 53 \<Longrightarrow> rd (numeral n) = numeral n"
  using rd_of_int[of "numeral n"] by simp

lemma rd_0 [simp]: "rd 0 = 0"
  using rd_of_int[of 0] by simp

lemma rd_1 [simp]: "rd 1 = 1"
  using rd_of_int[of 1] by simp

text \<open>
  Dividing a non-negative integer by a small positive one and taking \<^verbatim>\<open>Math.floor\<close> is integer
  division: the rounding of the quotient never reaches the next integer.
\<close>

lemma floor_rd_div:
  assumes d: "0 \<le> d" and c: "0 < c" "c \<le> 1000" and b: "d < 2 ^ 44 * c"
  shows "\<lfloor>rd (of_int d / of_int c)\<rfloor> = d div c"
proof -
  define q :: real where "q = of_int d / of_int c"
  define a where "a = d div c"
  have q0: "0 \<le> q"
    using d c by (simp add: q_def)
  have "real_of_int d < real_of_int (2 ^ 44 * c)"
    using b by (simp only: of_int_less_iff)
  then have "q < 2 ^ 44"
    using c by (simp add: q_def pos_divide_less_eq)
  then obtain i where n: "rd_pos q = of_int (round_even (q * denorm / 2 ^ i)) * 2 ^ i / denorm"
    and i: "i \<le> 44 + 1021"
    by (rule rd_pos_unit_bound)
  define W :: int where "W = 2 ^ (1074 - i)"
  have W: "denorm = of_int W * 2 ^ i"
    using i by (simp add: W_def denorm_split)
  have "(2::int) ^ 9 \<le> 2 ^ (1074 - i)"
    using i by (intro power_increasing) simp_all
  then have W512: "512 \<le> W"
    by (simp add: W_def)
  have r: "rd_pos q = of_int (round_even (q * of_int W)) / of_int W"
    unfolding n by (subst (1 2) W) simp
  have "d = a * c + d mod c" and "0 \<le> d mod c" and "d mod c < c"
    using c by (simp_all add: a_def)
  then have "a * c \<le> d" and "d \<le> a * c + c - 1"
    by linarith+
  then have "real_of_int (a * c) \<le> real_of_int d"
    and "real_of_int d \<le> real_of_int (a * c + c - 1)"
    by (simp_all only: of_int_le_iff)
  then have "of_int a * of_int c \<le> real_of_int d"
    and "real_of_int d \<le> of_int a * of_int c + of_int c - 1"
    by simp_all
  then have aq: "of_int a \<le> q" and qa: "q \<le> of_int a + 1 - 1 / of_int c"
    using c by (simp_all add: q_def field_simps)
  have "of_int (a * W) \<le> q * of_int W"
    using aq W512 by (simp add: mult_right_mono)
  then have lo: "a * W \<le> round_even (q * of_int W)"
    by (rule round_even_ge)
  have "of_int (round_even (q * of_int W)) \<le> q * of_int W + 1 / 2"
    using round_even_near[of "q * of_int W"] by linarith
  also have "\<dots> \<le> (of_int a + 1 - 1 / of_int c) * of_int W + 1 / 2"
    using qa W512 by (simp add: mult_right_mono)
  also have "\<dots> < of_int ((a + 1) * W)"
  proof -
    have "real_of_int c < 2 * real_of_int W"
      using c W512 by simp
    then have "1 / 2 < real_of_int W / real_of_int c"
      using c by (simp add: field_simps)
    then show ?thesis
      by (simp add: algebra_simps)
  qed
  finally have hi: "round_even (q * of_int W) < (a + 1) * W"
    by (simp only: of_int_less_iff)
  have Wpos: "0 < real_of_int W"
    using W512 by simp
  have "real_of_int (a * W) \<le> of_int (round_even (q * of_int W))"
    and "real_of_int (round_even (q * of_int W)) < of_int ((a + 1) * W)"
    using lo hi by (simp_all only: of_int_le_iff of_int_less_iff)
  then have "of_int a \<le> rd_pos q" "rd_pos q < of_int a + 1"
    using Wpos by (simp_all add: r pos_le_divide_eq pos_divide_less_eq)
  then have "\<lfloor>rd_pos q\<rfloor> = a"
    by (simp add: floor_unique)
  then show ?thesis
    using q0 by (simp add: rd_def q_def a_def)
qed


section \<open>The session handlers\<close>

lemma findIndex_None_iff: "findIndex P xs = None \<longleftrightarrow> (\<forall>x\<in>set xs. \<not> P x)"
  by (induction xs) auto

lemma findIndex_Some: "findIndex P xs = Some i \<Longrightarrow> i < length xs \<and> P (xs ! i)"
  by (induction xs arbitrary: i) (auto split: if_splits)

lemma find_updateOne:
  assumes "find P xs = Some s" and "\<And>x. P x \<Longrightarrow> Q x" and "P s'"
  shows "find P (updateOne Q (\<lambda>_. s') xs) = Some s'"
  using assms(1) by (induction xs) (auto simp: assms(2,3))

lemma findSession_ids: "findSession sessionId uid d = Some s \<Longrightarrow> session_id s = sessionId \<and> user s = uid"
  by (auto simp: findSession_def find_Some_iff)

lemma findSession_saveSession:
  assumes "findSession sessionId uid d = Some s" and "session_id s' = sessionId" and "user s' = uid"
  shows "findSession sessionId uid (saveSession s' d) = Some s'"
  using assms find_updateOne[of "\<lambda>s. session_id s = sessionId \<and> user s = uid" "sessionColl d" s
      "\<lambda>x. session_id x = sessionId" s']
  by (simp add: findSession_def saveSession_def)

text \<open>What an accepted call returns and stores.\<close>

lemma recordOutcome_ok:
  assumes "findSession sessionId uid d = Some s"
    and "findIndex (\<lambda>c. flashcard c = flashcardId) (flashcards s) = Some i"
  shows "\<exists>s'. recordOutcome True uid sessionId flashcardId b t d =
           (Inr s', saveSession s' (d\<lparr>cardColl :=
               updateOne (\<lambda>c. card_id c = flashcardId) (incAnswers b) (cardColl d)\<rparr>))
         \<and> s' = s\<lparr>flashcards := (flashcards s)[i := answerCard b t (flashcards s ! i)],
                  score := (tally b (score s))\<lparr>percentage :=
                     Some (calcPercentage (correct (tally b (score s)))
                        (correct (tally b (score s)) + incorrect (tally b (score s))))\<rparr>\<rparr>"
  using assms by (simp add: recordOutcome_def Let_def)

lemma findSession_cardColl [simp]: "findSession sessionId uid (d\<lparr>cardColl := cs\<rparr>) = findSession sessionId uid d"
  by (simp add: findSession_def)

lemma findSession_deckColl [simp]: "findSession sessionId uid (d\<lparr>deckColl := ks\<rparr>) = findSession sessionId uid d"
  by (simp add: findSession_def)

lemma tally_total: "correct (tally b sc) + incorrect (tally b sc) = correct sc + incorrect sc + 1"
  by (simp add: tally_def)

lemma tally_correct: "correct (tally b sc) = correct sc + (if b then 1 else 0)"
  and tally_incorrect: "incorrect (tally b sc) = incorrect sc + (if b then 0 else 1)"
  by (simp_all add: tally_def)

text \<open>What one accepted call does to the stored session.\<close>

lemma recordOutcome_step:
  assumes "findSession sessionId uid d = Some s"
    and "recordOutcome True uid sessionId flashcardId b t d = (Inr s', d')"
  shows "findSession sessionId uid d' = Some s'"
    and "\<exists>i. findIndex (\<lambda>c. flashcard c = flashcardId) (flashcards s) = Some i
           \<and> flashcards s' = (flashcards s)[i := answerCard b t (flashcards s ! i)]"
    and "correct (score s') = correct (score s) + (if b then 1 else 0)"
    and "incorrect (score s') = incorrect (score s) + (if b then 0 else 1)"
    and "percentage (score s') =
           Some (calcPercentage (correct (score s')) (correct (score s') + incorrect (score s')))"
    and "isCompleted s' = isCompleted s \<and> endTime s' = endTime s \<and> totalDuration s' = totalDuration s
           \<and> startTime s' = startTime s \<and> session_deck s' = session_deck s"
proof -
  obtain i where i: "findIndex (\<lambda>c. flashcard c = flashcardId) (flashcards s) = Some i"
    using assms by (cases "findIndex (\<lambda>c. flashcard c = flashcardId) (flashcards s)")
      (auto simp: recordOutcome_def)
  from recordOutcome_ok[OF assms(1) i, of b t] assms(2)
  have s': "s' = s\<lparr>flashcards := (flashcards s)[i := answerCard b t (flashcards s ! i)],
                  score := (tally b (score s))\<lparr>percentage :=
                     Some (calcPercentage (correct (tally b (score s)))
                        (correct (tally b (score s)) + incorrect (tally b (score s))))\<rparr>\<rparr>"
    and d': "d' = saveSession s' (d\<lparr>cardColl :=
               updateOne (\<lambda>c. card_id c = flashcardId) (incAnswers b) (cardColl d)\<rparr>)"
    by auto
  have ids: "session_id s' = sessionId" "user s' = uid"
    using findSession_ids[OF assms(1)] by (simp_all add: s')
  show "findSession sessionId uid d' = Some s'"
    unfolding d' using assms(1) ids by (intro findSession_saveSession) simp_all
  show "\<exists>i. findIndex (\<lambda>c. flashcard c = flashcardId) (flashcards s) = Some i
           \<and> flashcards s' = (flashcards s)[i := answerCard b t (flashcards s ! i)]"
    using i by (simp add: s')
  show "correct (score s') = correct (score s) + (if b then 1 else 0)"
    by (simp add: s' tally_def)
  show "incorrect (score s') = incorrect (score s) + (if b then 0 else 1)"
    by (simp add: s' tally_def)
  show "percentage (score s') =
           Some (calcPercentage (correct (score s')) (correct (score s') + incorrect (score s')))"
    by (simp add: s')
  show "isCompleted s' = isCompleted s \<and> endTime s' = endTime s \<and> totalDuration s' = totalDuration s
           \<and> startTime s' = startTime s \<and> session_deck s' = session_deck s"
    by (simp add: s')
qed

lemma answerCard_fields [simp]:
  "flashcard (answerCard b t c) = flashcard c"
  "isCorrect (answerCard b t c) = Some b"
  "attempts (answerCard b t c) = attempts c + 1"
  "timeSpent (answerCard b t c) = js_add (timeSpent c) t"
  by (simp_all add: answerCard_def)

lemma map_flashcard_update:
  "findIndex (\<lambda>c. flashcard c = x) cs = Some i
     \<Longrightarrow> map flashcard (cs[i := answerCard b t (cs ! i)]) = map flashcard cs"
  by (drule findIndex_Some) (simp add: map_update list_update_same_conv)

lemma findIndex_update:
  "findIndex P cs = Some i \<Longrightarrow> P y \<Longrightarrow> findIndex P (cs[i := y]) = Some i"
  by (induction cs arbitrary: i) (auto split: if_splits)

lemma sum_attempts_update:
  assumes "i < length cs"
  shows "sum_list (map attempts (cs[i := answerCard b t (cs ! i)])) = sum_list (map attempts cs) + 1"
  using assms
proof (induction cs arbitrary: i)
  case Nil
  then show ?case by simp
next
  case (Cons c cs)
  then show ?case by (cases i) simp_all
qed

lemma recordOutcomes_run:
  assumes "findSession sessionId uid d = Some s"
    and "recordOutcomes uid sessionId calls d = Some d'"
  shows "\<exists>s'. findSession sessionId uid d' = Some s'
     \<and> correct (score s') = correct (score s) + corrects calls
     \<and> incorrect (score s') = incorrect (score s) + incorrects calls
     \<and> map flashcard (flashcards s') = map flashcard (flashcards s)
     \<and> sum_list (map attempts (flashcards s')) = sum_list (map attempts (flashcards s)) + length calls
     \<and> (calls \<noteq> [] \<longrightarrow> percentage (score s') =
           Some (calcPercentage (correct (score s')) (correct (score s') + incorrect (score s'))))
     \<and> (calls \<noteq> [] \<longrightarrow> (\<exists>i. findIndex (\<lambda>c. flashcard c = fst (last calls)) (flashcards s') = Some i
           \<and> isCorrect (flashcards s' ! i) = Some (fst (snd (last calls)))))"
  using assms
proof (induction calls arbitrary: d s)
  case Nil
  then show ?case by (simp add: corrects_def incorrects_def)
next
  case (Cons call calls)
  obtain c b t where call: "call = (c, b, t)"
    by (cases call) auto
  from Cons.prems(2) obtain s1 d1 where
    step: "recordOutcome True uid sessionId c b t d = (Inr s1, d1)"
    and rest: "recordOutcomes uid sessionId calls d1 = Some d'"
    by (auto simp: call split: prod.splits sum.splits)
  note st = recordOutcome_step[OF Cons.prems(1) step]
  from st(2) obtain i where i: "findIndex (\<lambda>x. flashcard x = c) (flashcards s) = Some i"
    and fs1: "flashcards s1 = (flashcards s)[i := answerCard b t (flashcards s ! i)]"
    by blast
  have il: "i < length (flashcards s)"
    using findIndex_Some[OF i] by simp
  have m1: "map flashcard (flashcards s1) = map flashcard (flashcards s)"
    unfolding fs1 using i by (rule map_flashcard_update)
  have a1: "sum_list (map attempts (flashcards s1)) = sum_list (map attempts (flashcards s)) + 1"
    unfolding fs1 using il by (rule sum_attempts_update)
  from Cons.IH[OF st(1) rest] obtain s' where s':
    "findSession sessionId uid d' = Some s'"
    "correct (score s') = correct (score s1) + corrects calls"
    "incorrect (score s') = incorrect (score s1) + incorrects calls"
    "map flashcard (flashcards s') = map flashcard (flashcards s1)"
    "sum_list (map attempts (flashcards s')) = sum_list (map attempts (flashcards s1)) + length calls"
    "calls \<noteq> [] \<longrightarrow> percentage (score s') =
           Some (calcPercentage (correct (score s')) (correct (score s') + incorrect (score s')))"
    "calls \<noteq> [] \<longrightarrow> (\<exists>i. findIndex (\<lambda>c. flashcard c = fst (last calls)) (flashcards s') = Some i
           \<and> isCorrect (flashcards s' ! i) = Some (fst (snd (last calls))))"
    by blast
  show ?case
  proof (cases "calls = []")
    case True
    with rest have d1: "d' = d1" by simp
    have fi: "findIndex (\<lambda>x. flashcard x = c) (flashcards s1) = Some i"
      unfolding fs1 using i findIndex_Some[OF i] by (intro findIndex_update) simp_all
    have "isCorrect (flashcards s1 ! i) = Some b"
      using il by (simp add: fs1)
    with True st(1,3,4,5) fi m1 a1 show ?thesis
      by (intro exI[of _ s1]) (simp add: call corrects_def incorrects_def d1)
  next
    case False
    with s' st(3,4) m1 a1 show ?thesis
      by (intro exI[of _ s']) (simp add: call corrects_def incorrects_def)
  qed
qed


subsection \<open>Integer arithmetic is exact\<close>

lemma js_sub_int: "\<bar>a - b\<bar> < 2 ^ 53 \<Longrightarrow> js_sub (of_int a) (of_int b) = of_int (a - b)"
  using rd_of_int[of "a - b"] by (simp add: js_sub_def)

lemma js_add_int: "\<bar>a + b\<bar> < 2 ^ 53 \<Longrightarrow> js_add (of_int a) (of_int b) = of_int (a + b)"
  using rd_of_int[of "a + b"] by (simp add: js_add_def)

lemma js_mul_int: "\<bar>a * b\<bar> < 2 ^ 53 \<Longrightarrow> js_mul (of_int a) (of_int b) = of_int (a * b)"
  using rd_of_int[of "a * b"] by (simp add: js_mul_def)

lemma Math_floor_div:
  assumes "0 \<le> d" and "0 < c" and "c \<le> 1000" and "d < 2 ^ 44 * c"
  shows "Math_floor (js_div (of_int d) (of_int c)) = d div c"
  using floor_rd_div[OF assms] by (simp add: Math_floor_def js_div_def)

lemma calcDuration_exact:
  assumes "start \<le> end" and "end - start < 2 ^ 53"
  shows "calcDuration end start = (end - start) div 1000"
proof -
  have "js_sub (of_int end) (of_int start) = of_int (end - start)"
    using assms by (intro js_sub_int) simp
  moreover have "Math_floor (js_div (of_int (end - start)) (of_int 1000)) = (end - start) div 1000"
    using assms by (intro Math_floor_div) simp_all
  ultimately show ?thesis
    by (simp add: calcDuration_def)
qed

lemma minutes_exact:
  assumes "0 \<le> t" and "t < 2 ^ 44"
  shows "Math_floor (js_div (of_int t) 60) = t div 60"
  using Math_floor_div[of t 60] assms by simp

lemma calcPercentage_all: "0 < n \<Longrightarrow> calcPercentage n n = 100"
  using rd_of_int[of 100] by (simp add: calcPercentage_def js_div_def js_mul_def Math_round_def)


subsection \<open>Completion and sequences of outcomes\<close>

lemmas ex_defs = ex_db_def ex_db_open_def ex_db_done_def ex_deck_def ex_empty_deck_def
  ex_card_def ex_session_def ex_completed_def ex_answered_def ex_fresh_def ex_db_fresh_def

text \<open>What a completion returns and stores, with and without a percentage.\<close>

lemma completeSession_saved:
  assumes "findSession sessionId uid d = Some s"
  shows "findSession sessionId uid
           (saveSession (s\<lparr>endTime := Some now, totalDuration := Some t, isCompleted := True\<rparr>) d)
         = Some (s\<lparr>endTime := Some now, totalDuration := Some t, isCompleted := True\<rparr>)"
  using assms findSession_ids[OF assms] by (intro findSession_saveSession) simp_all

lemma completeSession_ok:
  assumes "findSession sessionId uid d = Some s" and "percentage (score s) = Some p"
  shows "\<exists>s' d'. completeSession now uid sessionId d = (Inr s', d')
     \<and> s' = s\<lparr>endTime := Some now, totalDuration := Some (calcDuration now (startTime s)),
              isCompleted := True\<rparr>
     \<and> findSession sessionId uid d' = Some s'
     \<and> cardColl d' = cardColl d
     \<and> map session_id (sessionColl d') = map session_id (sessionColl d)
     \<and> deckColl d' = updateOne (\<lambda>k. deck_id k = session_deck s)
          (incDeckStudy (Math_floor (js_div (of_int (calcDuration now (startTime s))) 60)) p)
          (deckColl d)"
proof -
  define s' where "s' = s\<lparr>endTime := Some now,
    totalDuration := Some (calcDuration now (startTime s)), isCompleted := True\<rparr>"
  have "findSession sessionId uid (saveSession s' d) = Some s'"
    unfolding s'_def using assms(1) by (rule completeSession_saved)
  moreover have "map session_id (updateOne (\<lambda>x. session_id x = session_id s) (\<lambda>_. s') xs)
      = map session_id xs" for xs
    by (induction xs) (simp_all add: s'_def)
  ultimately show ?thesis
    using assms by (simp add: completeSession_def Let_def s'_def saveSession_def)
qed

lemma completeSession_undefined:
  assumes "findSession sessionId uid d = Some s" and "percentage (score s) = None"
  shows "\<exists>s' d'. completeSession now uid sessionId d = (Inl ServerError, d')
     \<and> s' = s\<lparr>endTime := Some now, totalDuration := Some (calcDuration now (startTime s)),
              isCompleted := True\<rparr>
     \<and> findSession sessionId uid d' = Some s'
     \<and> cardColl d' = cardColl d
     \<and> deckColl d' = deckColl d"
proof -
  define s' where "s' = s\<lparr>endTime := Some now,
    totalDuration := Some (calcDuration now (startTime s)), isCompleted := True\<rparr>"
  have "findSession sessionId uid (saveSession s' d) = Some s'"
    unfolding s'_def using assms(1) by (rule completeSession_saved)
  then show ?thesis
    using assms by (simp add: completeSession_def Let_def s'_def saveSession_def)
qed

text \<open>The two ways in which a call on a card of the session, or on no card of it, is refused.\<close>

lemma recordOutcome_no_card:
  assumes "findSession sessionId uid d = Some s"
    and "flashcardId \<notin> flashcard ` set (flashcards s)"
  shows "recordOutcome incOk uid sessionId flashcardId b t d = (Inl InvalidReference, d)"
proof -
  have "findIndex (\<lambda>c. flashcard c = flashcardId) (flashcards s) = None"
    using assms(2) by (auto simp: findIndex_None_iff)
  with assms(1) show ?thesis
    by (simp add: recordOutcome_def)
qed

lemma recordOutcome_no_increment:
  assumes "findSession sessionId uid d = Some s"
    and "flashcardId \<in> flashcard ` set (flashcards s)"
  shows "recordOutcome False uid sessionId flashcardId b t d = (Inl ServerError, d)"
proof -
  have "findIndex (\<lambda>c. flashcard c = flashcardId) (flashcards s) \<noteq> None"
    using assms(2) by (auto simp: findIndex_None_iff)
  with assms(1) show ?thesis
    by (auto simp: recordOutcome_def Let_def)
qed

lemma findIndex_member:
  "x \<in> flashcard ` set cs \<Longrightarrow> \<exists>i. findIndex (\<lambda>c. flashcard c = x) cs = Some i"
  using findIndex_None_iff[of "\<lambda>c. flashcard c = x" cs] by (cases "findIndex (\<lambda>c. flashcard c = x) cs") auto

lemma recordOutcome_accepts:
  assumes "findSession sessionId uid d = Some s"
    and "flashcardId \<in> flashcard ` set (flashcards s)"
  shows "\<exists>s' d'. recordOutcome True uid sessionId flashcardId b t d = (Inr s', d')"
proof -
  from findIndex_member[OF assms(2)] obtain i
    where "findIndex (\<lambda>c. flashcard c = flashcardId) (flashcards s) = Some i" ..
  from recordOutcome_ok[OF assms(1) this, of b t] show ?thesis
    by blast
qed

lemma recordOutcomes_succeeds:
  assumes "findSession sessionId uid d = Some s"
    and "fst ` set calls \<subseteq> flashcard ` set (flashcards s)"
  shows "\<exists>d'. recordOutcomes uid sessionId calls d = Some d'"
  using assms
proof (induction calls arbitrary: d s)
  case Nil
  then show ?case by simp
next
  case (Cons call calls)
  obtain c b t where call: "call = (c, b, t)"
    by (cases call) auto
  have "c \<in> flashcard ` set (flashcards s)"
    using Cons.prems(2) by (auto simp: call)
  from recordOutcome_accepts[OF Cons.prems(1) this, of b t] obtain s1 d1
    where step: "recordOutcome True uid sessionId c b t d = (Inr s1, d1)"
    by blast
  note st = recordOutcome_step[OF Cons.prems(1) step]
  from st(2) obtain i where i: "findIndex (\<lambda>x. flashcard x = c) (flashcards s) = Some i"
    and fs1: "flashcards s1 = (flashcards s)[i := answerCard b t (flashcards s ! i)]"
    by blast
  have "map flashcard (flashcards s1) = map flashcard (flashcards s)"
    unfolding fs1 using i by (rule map_flashcard_update)
  then have "flashcard ` set (flashcards s1) = flashcard ` set (flashcards s)"
    by (metis set_map)
  with Cons.prems(2) have "fst ` set calls \<subseteq> flashcard ` set (flashcards s1)"
    by auto
  from Cons.IH[OF st(1) this] step show ?case
    by (simp add: call)
qed

lemma corrects_incorrects: "corrects calls + incorrects calls = length calls"
  unfolding corrects_def incorrects_def
  using sum_length_filter_compl[of "\<lambda>(c, b, t). b" calls]
  by (simp add: case_prod_unfold)



subsection \<open>Evaluating a rounding\<close>

text \<open>A value whose 53-bit significand is read off after scaling by \<open>2 ^ k\<close>.\<close>

lemma rd_scaled:
  assumes "2 ^ 52 \<le> q * 2 ^ k" and "q * 2 ^ k < 2 ^ 53" and "k \<le> 1073"
  shows "rd q = of_int (round_even (q * 2 ^ k)) / 2 ^ k"
proof -
  define j where "j = 1126 - k"
  have j: "53 \<le> j" "j - 52 = 1074 - k" "j = 52 + (1074 - k)" "Suc j = 53 + (1074 - k)"
    using assms(3) by (simp_all add: j_def)
  have d: "denorm = 2 ^ k * 2 ^ (1074 - k)"
    using assms(3) by (simp add: denorm_def flip: power_add)
  have "0 < q * 2 ^ k"
    using assms(1) by (rule less_le_trans[rotated]) simp
  then have "0 < q"
    by (simp add: zero_less_mult_iff)
  have "2 ^ 52 * 2 ^ (1074 - k) \<le> q * 2 ^ k * (2 ^ (1074 - k) :: real)"
    using assms(1) by (intro mult_right_mono) simp_all
  then have lo: "2 ^ j \<le> q * denorm"
    unfolding j(3) power_add d by (simp add: mult.assoc)
  have "q * 2 ^ k * (2 ^ (1074 - k) :: real) < 2 ^ 53 * 2 ^ (1074 - k)"
    using assms(2) by (intro mult_strict_right_mono) simp_all
  then have hi: "q * denorm < 2 ^ Suc j"
    unfolding j(4) power_add d by (simp add: mult.assoc)
  have "rd_pos q = of_int (round_even (q * denorm / 2 ^ (1074 - k))) * 2 ^ (1074 - k) / denorm"
    using rd_pos_binade[OF lo hi j(1)] by (simp only: j(2))
  also have "q * denorm / 2 ^ (1074 - k) = q * 2 ^ k"
    by (subst d) simp
  also have "of_int (round_even (q * 2 ^ k)) * 2 ^ (1074 - k) / denorm
      = of_int (round_even (q * 2 ^ k)) / 2 ^ k"
    by (subst d) simp
  finally show ?thesis
    using \<open>0 < q\<close> by (simp add: rd_def)
qed

text \<open>
  \<open>23 / 40\<close> rounds to a double just below 0.575, and a hundred times that double rounds to
  a double just below 57.5.
\<close>

lemma calcPercentage_23_40: "calcPercentage 23 40 = 57"
proof -
  have a: "js_div 23 40 = 2589569785738035 / 4503599627370496"
    unfolding js_div_def by (subst rd_scaled[where k = 53]) (simp_all add: round_even_def Let_def)
  have b: "js_mul (2589569785738035 / 4503599627370496) 100 = 8092405580431359 / 140737488355328"
    unfolding js_mul_def by (subst rd_scaled[where k = 47]) (simp_all add: round_even_def Let_def)
  have "calcPercentage 23 40 = Math_round (js_mul (js_div 23 40) 100)"
    by (simp add: calcPercentage_def)
  also have "\<dots> = \<lfloor>(8092405580431359 / 140737488355328 :: real) + 1 / 2\<rfloor>"
    by (simp only: a b Math_round_def)
  also have "\<dots> = 57"
    by simp
  finally show ?thesis .
qed

text \<open>The score after a non-empty sequence of accepted calls on a session that started at zero.\<close>

lemma score_after_outcomes:
  assumes "findSession sessionId uid d = Some s"
    and "correct (score s) = 0" and "incorrect (score s) = 0"
    and "recordOutcomes uid sessionId calls d = Some d'"
    and "calls \<noteq> []"
  shows "\<exists>s'. findSession sessionId uid d' = Some s'
     \<and> correct (score s') = corrects calls \<and> incorrect (score s') = incorrects calls
     \<and> percentage (score s') = Some (calcPercentage (corrects calls) (corrects calls + incorrects calls))"
  using recordOutcomes_run[OF assms(1,4)] assms(2,3,5) by auto

lemma startSession_ex_db40:
  "startSession (\<lambda>xs. xs) 10 0 7 1 ex_db40 =
     (Inr (newSession 10 0 7 1 (map (\<lambda>i. unanswered (ex_card i 0)) [100..<140])),
      ex_db40\<lparr>sessionColl := [newSession 10 0 7 1 (map (\<lambda>i. unanswered (ex_card i 0)) [100..<140])]\<rparr>)"
proof -
  have "cardsOfDeck 1 ex_db40 = map (\<lambda>i. ex_card i 0) [100..<140]"
    unfolding cardsOfDeck_def ex_db40_def by (simp add: ex_card_def filter_map o_def del: upt_rec_numeral)
  moreover have "findDeckForUser 1 7 ex_db40
      = Some (ex_deck\<lparr>statistics := \<lparr>totalCards = 40, totalStudyTime = 0, averageScore = 0\<rparr>\<rparr>)"
    by (simp add: findDeckForUser_def ex_db40_def ex_deck_def)
  ultimately show ?thesis
    by (simp add: startSession_def Let_def o_def del: upt_rec_numeral) (simp add: ex_db40_def del: upt_rec_numeral)
qed



section \<open>Consistency of the store\<close>



























text \<open>What a creation and a deletion do to the counter and to the count.\<close>

lemma find_updateOne_id:
  "(\<And>x. g (f x) = g x)
     \<Longrightarrow> find (\<lambda>x. g x = i) (updateOne (\<lambda>x. g x = i) f xs) = map_option f (find (\<lambda>x. g x = i) xs)"
  by (induction xs) auto






section \<open>Identifiers as strings\<close>

text \<open>\<open>toString\<close> yields a MongoId in lower case.\<close>

lemma hexChar_lower: "v < 16 \<Longrightarrow> isLowerHex (hexChar v)"
  by (auto simp: hexChar_def isLowerHex_def)

lemma hexString_lower: "list_all isLowerHex (hexString k n)"
  by (induction k arbitrary: n) (simp_all add: hexChar_lower)

lemma length_hexString [simp]: "length (hexString k n) = k"
  by (induction k arbitrary: n) simp_all

lemma isLowerHex_isHexDigit: "isLowerHex c \<Longrightarrow> isHexDigit c"
  by (auto simp: isLowerHex_def isHexDigit_def digitVal_def Let_def)


lemma sub_mod: "97 \<le> n \<Longrightarrow> n \<le> 122 \<Longrightarrow> (n - 32) mod 256 = (n - 32 :: nat)"
  by simp

lemma of_char_upperCase:
  "(of_char (upperCase c) :: nat) =
     (if 97 \<le> (of_char c :: nat) \<and> (of_char c :: nat) \<le> 122 then of_char c - 32 else of_char c)"
  by (simp add: upperCase_def sub_mod)

lemma hexdigit_nat:
  fixes n :: nat
  assumes "48 \<le> n \<and> n \<le> 57 \<or> 97 \<le> n \<and> n \<le> 102"
  shows "(if 97 \<le> n \<and> n \<le> 122 then n - 32 else n) \<notin> {120, 88, 104, 72}"
    and "n \<notin> {120, 88, 104, 72}"
    and "97 \<le> n \<and> n \<le> 122 \<Longrightarrow> \<not> (48 \<le> n - 32 \<and> n - 32 \<le> 57 \<or> 97 \<le> n - 32 \<and> n - 32 \<le> 102)"
  using assms by auto

lemma isLowerHex_upperCase: "isLowerHex c \<Longrightarrow> isHexDigit (upperCase c)"
proof -
  assume a: "isLowerHex c"
  define n where "n = (of_char c :: nat)"
  define m where "m = (of_char (upperCase c) :: nat)"
  have m: "m = (if 97 \<le> n \<and> n \<le> 122 then n - 32 else n)"
    unfolding m_def n_def by (rule of_char_upperCase)
  from a have "48 \<le> n \<and> n \<le> 57 \<or> 97 \<le> n \<and> n \<le> 102"
    by (simp add: isLowerHex_def n_def)
  with m have "48 \<le> m \<and> m \<le> 57 \<or> 65 \<le> m \<and> m \<le> 70"
    by auto
  then show ?thesis
    unfolding isHexDigit_def digitVal_def Let_def m_def[symmetric] by auto
qed

lemma isLowerHex_no_prefix:
  assumes "isLowerHex c"
  shows "c \<notin> set ''xXhH'' \<and> upperCase c \<notin> set ''xXhH''"
proof -
  define n where "n = (of_char c :: nat)"
  from assms have n: "48 \<le> n \<and> n \<le> 57 \<or> 97 \<le> n \<and> n \<le> 102"
    by (simp add: isLowerHex_def n_def)
  have "c \<notin> set ''xXhH''"
  proof
    assume "c \<in> set ''xXhH''"
    then have "n \<in> {120, 88, 104, 72}"
      unfolding n_def by auto
    with hexdigit_nat(2)[OF n] show False ..
  qed
  moreover have "upperCase c \<notin> set ''xXhH''"
  proof
    assume "upperCase c \<in> set ''xXhH''"
    then have "(of_char (upperCase c) :: nat) \<in> {120, 88, 104, 72}"
      by auto
    then have "(if 97 \<le> n \<and> n \<le> 122 then n - 32 else n) \<in> {120, 88, 104, 72}"
      unfolding of_char_upperCase n_def .
    with hexdigit_nat(1)[OF n] show False ..
  qed
  ultimately show ?thesis ..
qed

lemma isLowerHex_upper_fixed:
  assumes "isLowerHex c" and "isLowerHex (upperCase c)"
  shows "upperCase c = c"
proof (cases "97 \<le> (of_char c :: nat) \<and> (of_char c :: nat) \<le> 122")
  case True
  define n where "n = (of_char c :: nat)"
  from assms(1) have n: "48 \<le> n \<and> n \<le> 57 \<or> 97 \<le> n \<and> n \<le> 102"
    by (simp add: isLowerHex_def n_def)
  from assms(2) True have "48 \<le> n - 32 \<and> n - 32 \<le> 57 \<or> 97 \<le> n - 32 \<and> n - 32 \<le> 102"
    unfolding isLowerHex_def of_char_upperCase n_def by simp
  with hexdigit_nat(3)[OF n] True show ?thesis
    unfolding n_def by blast
next
  case False
  show ?thesis
    by (simp only: upperCase_def if_not_P[OF False])
qed

lemma toString_cases:
  "\<exists>a b r. toString i = a # b # r \<and> length r = 22 \<and> isLowerHex b \<and> list_all isLowerHex (toString i)"
proof -
  have len: "length (toString i) = 24"
    by (simp add: toString_def)
  then obtain a s1 where s1: "toString i = a # s1" "length s1 = 23"
    by (cases "toString i") auto
  then obtain b r where r: "s1 = b # r" "length r = 22"
    by (cases s1) auto
  have l: "list_all isLowerHex (toString i)"
    unfolding toString_def by (rule hexString_lower)
  with s1 r show ?thesis
    by auto
qed


lemma isHexadecimal_no_prefix:
  assumes "b \<notin> set ''xXhH''" and "list_all isHexDigit (a # b # r)"
  shows "isHexadecimal (a # b # r)"
proof -
  have "take 2 (a # b # r) = [a, b]"
    by simp
  moreover have "[a, b] \<notin> set [''0x'', ''0X'', ''0h'', ''0H'']"
    using assms(1) by auto
  ultimately show ?thesis
    using assms(2) unfolding isHexadecimal_def Let_def by (simp only: if_False) simp
qed

lemma isMongoId_toString: "isMongoId (toString i)"
proof -
  from toString_cases[of i] obtain a b r where s: "toString i = a # b # r" and r: "length r = 22"
    and b: "isLowerHex b" and l: "list_all isLowerHex (toString i)"
    by blast
  from l have "list_all isHexDigit (toString i)"
    by (auto simp: list_all_iff isLowerHex_isHexDigit)
  with isLowerHex_no_prefix[OF b] have "isHexadecimal (toString i)"
    unfolding s by (intro isHexadecimal_no_prefix) simp_all
  moreover have "length (toString i) = 24"
    by (simp add: toString_def)
  ultimately show ?thesis
    by (simp add: isMongoId_def)
qed

lemma isMongoId_upper: "isMongoId (map upperCase (toString i))"
proof -
  from toString_cases[of i] obtain a b r where s: "toString i = a # b # r" and r: "length r = 22"
    and b: "isLowerHex b" and l: "list_all isLowerHex (toString i)"
    by blast
  from l have "list_all isHexDigit (map upperCase (toString i))"
    by (auto simp: list_all_iff isLowerHex_upperCase)
  with isLowerHex_no_prefix[OF b] have "isHexadecimal (map upperCase (toString i))"
    unfolding s list.map by (intro isHexadecimal_no_prefix) simp_all
  moreover have "length (map upperCase (toString i)) = 24"
    by (simp add: toString_def)
  ultimately show ?thesis
    by (simp add: isMongoId_def)
qed

lemma upper_not_toString:
  assumes "map upperCase (toString i) \<noteq> toString i"
  shows "map upperCase (toString i) \<noteq> toString j"
proof
  assume e: "map upperCase (toString i) = toString j"
  have "list_all isLowerHex (toString j)" and l: "list_all isLowerHex (toString i)"
    unfolding toString_def by (rule hexString_lower)+
  with e have "list_all isLowerHex (map upperCase (toString i))"
    by simp
  with l have "map upperCase (toString i) = toString i"
    by (intro map_idI isLowerHex_upper_fixed) (simp_all add: list_all_iff)
  with assms show False ..
qed

text \<open>What the request does once the string has matched a card record.\<close>

lemma findIndex_finer:
  assumes "findIndex P xs = Some i" and "\<And>x. Q x \<Longrightarrow> P x" and "Q (xs ! i)"
  shows "findIndex Q xs = Some i"
  using assms(1,3)
proof (induction xs arbitrary: i)
  case Nil
  then show ?case by simp
next
  case (Cons x xs)
  show ?case
  proof (cases "P x")
    case True
    with Cons.prems show ?thesis by simp
  next
    case False
    with Cons.prems obtain j where j: "findIndex P xs = Some j" "i = Suc j"
      by auto
    with Cons.prems(2) have "Q (xs ! j)"
      by simp
    from Cons.IH[OF j(1) this] False assms(2)[of x] j(2) show ?thesis
      by auto
  qed
qed

lemma recordOutcomeRequest_matched:
  assumes "findSession sessionId uid d = Some s"
    and "findIndex (\<lambda>c. toString (flashcard c) = fid) (flashcards s) = Some i"
  shows "recordOutcomeRequest incOk uid sessionId fid b t d
         = recordOutcome incOk uid sessionId (flashcard (flashcards s ! i)) b t d"
    and "findIndex (\<lambda>c. flashcard c = flashcard (flashcards s ! i)) (flashcards s) = Some i"
    and "i < length (flashcards s)"
proof -
  from findIndex_Some[OF assms(2)]
  have i: "i < length (flashcards s)" and e: "toString (flashcard (flashcards s ! i)) = fid"
    by simp_all
  from e have "isMongoId fid"
    using isMongoId_toString[of "flashcard (flashcards s ! i)"] by simp
  with assms show "recordOutcomeRequest incOk uid sessionId fid b t d
         = recordOutcome incOk uid sessionId (flashcard (flashcards s ! i)) b t d"
    by (simp add: recordOutcomeRequest_def)
  show "findIndex (\<lambda>c. flashcard c = flashcard (flashcards s ! i)) (flashcards s) = Some i"
    using assms(2) by (rule findIndex_finer) (simp_all add: e)
  show "i < length (flashcards s)"
    by (rule i)
qed

lemma recordOutcomeRequest_unmatched:
  assumes "findSession sessionId uid d = Some s" and "isMongoId fid"
    and "fid \<notin> (\<lambda>c. toString (flashcard c)) ` set (flashcards s)"
  shows "recordOutcomeRequest incOk uid sessionId fid b t d = (Inl InvalidReference, d)"
proof -
  have "findIndex (\<lambda>c. toString (flashcard c) = fid) (flashcards s) = None"
    using assms(3) by (auto simp: findIndex_None_iff)
  with assms(1,2) show ?thesis
    by (simp add: recordOutcomeRequest_def)
qed

section \<open>The route of the statistics\<close>




section \<open>The percentage away from the ties\<close>

text \<open>In the normal range a rounding moves a value by at most one part in \<open>2 ^ 53\<close>.\<close>

lemma rd_pos_error:
  assumes "2 ^ 52 \<le> q * denorm"
  shows "\<bar>rd_pos q - q\<bar> \<le> q / 2 ^ 53"
proof -
  obtain i where r: "rd_pos q = of_int (round_even (q * denorm / 2 ^ i)) * 2 ^ i / denorm"
    and b: "i = 0 \<or> 2 ^ (i + 52) \<le> q * denorm"
    using rd_pos_unit[of q] by blast
  have u: "(2::real) ^ (i + 52) \<le> q * denorm"
    using b assms by auto
  define R where "R = real_of_int (round_even (q * denorm / 2 ^ i))"
  have "\<bar>R - q * denorm / 2 ^ i\<bar> \<le> 1 / 2"
    unfolding R_def by (rule round_even_near)
  moreover have nn: "0 \<le> 2 ^ i / denorm"
    using denorm_pos by (simp add: less_imp_le)
  ultimately have "\<bar>R - q * denorm / 2 ^ i\<bar> * (2 ^ i / denorm) \<le> 1 / 2 * (2 ^ i / denorm)"
    by (rule mult_right_mono)
  moreover have "\<bar>R - q * denorm / 2 ^ i\<bar> * (2 ^ i / denorm) = \<bar>R * 2 ^ i / denorm - q\<bar>"
  proof -
    have "\<bar>R - q * denorm / 2 ^ i\<bar> * (2 ^ i / denorm) = \<bar>(R - q * denorm / 2 ^ i) * (2 ^ i / denorm)\<bar>"
      using nn by (simp only: abs_mult abs_of_nonneg)
    also have "(R - q * denorm / 2 ^ i) * (2 ^ i / denorm) = R * 2 ^ i / denorm - q"
    proof -
      have "denorm \<noteq> 0"
        using denorm_pos by linarith
      then show ?thesis
        by (simp add: left_diff_distrib diff_divide_distrib)
    qed
    finally show ?thesis .
  qed
  ultimately have e: "\<bar>rd_pos q - q\<bar> \<le> 1 / 2 * (2 ^ i / denorm)"
    by (simp add: r R_def)
  have "(2::real) ^ i * 2 ^ 52 \<le> q * denorm"
    using u by (simp add: power_add)
  then have "(2::real) ^ i / denorm \<le> q / 2 ^ 52"
    using denorm_pos by (simp add: field_simps)
  then have "1 / 2 * ((2::real) ^ i / denorm) \<le> 1 / 2 * (q / 2 ^ 52)"
    by (intro mult_left_mono) simp_all
  also have "\<dots> = q / 2 ^ 53"
    by simp
  finally show ?thesis
    using e by (rule order_trans[rotated])
qed


lemma rd_error:
  assumes "0 \<le> q" and "2 ^ 52 \<le> q * denorm"
  shows "\<bar>rd q - q\<bar> \<le> q / 2 ^ 53"
  using rd_pos_error[OF assms(2)] assms(1) by (simp add: rd_def)

text \<open>
  Away from the ties the two roundings do not matter: the stored percentage is the
  quotient \<open>100 * k / n\<close> rounded to the nearest integer.
\<close>

lemma calcPercentage_off_tie:
  assumes n: "0 < n" "n < 2 ^ 40" and k: "k \<le> n" and nt: "(200 * k + n) mod (2 * n) \<noteq> 0"
  shows "calcPercentage k n = int ((200 * k + n) div (2 * n))"
proof (cases "k = 0")
  case True
  with n show ?thesis
    by (simp add: calcPercentage_def js_div_def js_mul_def Math_round_def)
next
  case False
  define q :: real where "q = of_nat k / of_nat n"
  define x where "x = rd q"
  define y where "y = rd (x * 100)"
  define P where "P = (200 * k + n) div (2 * n)"
  define r where "r = (200 * k + n) mod (2 * n)"
  have "real n < real (2 ^ 40)"
    using n(2) by (simp only: of_nat_less_iff)
  then have N: "real n < 2 ^ 40" "0 < real n"
    using n(1) by simp_all
  have q1: "q \<le> 1" and q0: "0 < q" and qn: "1 / real n \<le> q"
    using n k False by (simp_all add: q_def field_simps)
  have big: "(2::real) ^ 53 \<le> 1 / real n * denorm"
  proof -
    have "(2::real) ^ 53 * real n \<le> 2 ^ 53 * 2 ^ 40"
      using N by (intro mult_left_mono) simp_all
    also have "\<dots> \<le> denorm"
      by (simp add: denorm_def)
    finally show ?thesis
      using N by (simp add: field_simps)
  qed
  have "1 / real n * denorm \<le> q * denorm"
    using qn by (intro mult_right_mono) (simp_all add: less_imp_le)
  with big have qd: "2 ^ 53 \<le> q * denorm"
    by linarith
  define dq where "dq = q / 2 ^ 53"
  have dq: "0 \<le> dq" "dq \<le> q / 2" "dq \<le> 1 / 2 ^ 53"
    using q0 q1 by (simp_all add: dq_def field_simps)
  have ex: "\<bar>x - q\<bar> \<le> dq"
    unfolding x_def dq_def using q0 qd by (intro rd_error) simp_all
  then have xlo: "q / 2 \<le> x" and xhi: "x \<le> q + dq"
    using dq(2) by linarith+
  have x0: "0 \<le> x * 100"
    using xlo q0 by simp
  have "2 ^ 52 \<le> q / 2 * denorm"
    using qd by simp
  also have "\<dots> \<le> x * denorm"
    using xlo by (intro mult_right_mono) (simp_all add: less_imp_le)
  also have "\<dots> \<le> x * 100 * denorm"
    using x0 by (simp add: mult_right_mono less_imp_le)
  finally have xd: "2 ^ 52 \<le> x * 100 * denorm" .
  define dy where "dy = x * 100 / 2 ^ 53"
  have ey: "\<bar>y - x * 100\<bar> \<le> dy"
    unfolding y_def dy_def using x0 xd by (rule rd_error)
  have "x \<le> 1 + 1 / 2 ^ 53"
    using xhi q1 dq(3) by linarith
  then have "dy \<le> (1 + 1 / 2 ^ 53) * 100 / 2 ^ 53"
    unfolding dy_def by (intro divide_right_mono mult_right_mono) simp_all
  also have "\<dots> \<le> 101 / 2 ^ 53"
    by simp
  finally have dy: "dy \<le> 101 / 2 ^ 53" .
  have "100 * dq \<le> 100 * (1 / 2 ^ 53)"
    using dq(3) by (intro mult_left_mono) simp_all
  then have dq100: "100 * dq \<le> 100 / 2 ^ 53"
    by simp
  have lo: "- (201 / 2 ^ 53) \<le> y - 100 * q" and hi: "y - 100 * q \<le> 201 / 2 ^ 53"
    using ex ey dy dq100 by linarith+
  have r1: "1 \<le> r" and r2: "r < 2 * n"
    using nt n by (simp_all add: r_def Suc_le_eq)
  have "200 * k + n = P * (2 * n) + r"
    unfolding P_def r_def by (rule div_mult_mod_eq[symmetric])
  then have "real (200 * k + n) = real (P * (2 * n) + r)"
    by (simp only:)
  then have T: "100 * q + 1 / 2 = real P + real r / (2 * real n)"
    using N by (simp add: q_def field_simps)
  have "1 / (2 * real n) \<le> real r / (2 * real n)"
    using r1 N by (intro divide_right_mono) simp_all
  moreover have "real r / (2 * real n) \<le> 1 - 1 / (2 * real n)"
  proof -
    have "real r \<le> 2 * real n - 1"
      using r2 by (simp flip: of_nat_mult)
    then have "real r / (2 * real n) \<le> (2 * real n - 1) / (2 * real n)"
      using N by (intro divide_right_mono) simp_all
    also have "\<dots> = 1 - 1 / (2 * real n)"
      using N by (simp add: field_simps)
    finally show ?thesis .
  qed
  moreover have "(201::real) / 2 ^ 53 < 1 / (2 * real n)"
  proof -
    have "2 * real n * 201 < 2 * 2 ^ 40 * 201"
      using N by simp
    also have "\<dots> < (2::real) ^ 53"
      by simp
    finally show ?thesis
      using N by (simp add: field_simps)
  qed
  ultimately have "real P < y + 1 / 2" and "y + 1 / 2 < real P + 1"
    using lo hi T by linarith+
  then have "\<lfloor>y + 1 / 2\<rfloor> = int P"
    by (intro floor_unique) simp_all
  then show ?thesis
    by (simp add: calcPercentage_def js_div_def js_mul_def Math_round_def y_def x_def q_def P_def)
qed

lemma spec_percentage_div:
  assumes "0 < k + m"
  shows "spec_percentage k m = int ((200 * k + (k + m)) div (2 * (k + m)))"
proof -
  define n where "n = real (k + m)"
  have "real 0 < real (k + m)"
    using assms by (simp only: of_nat_less_iff)
  then have n: "0 < n"
    by (simp add: n_def)
  have "100 * real k / n + 1 / 2 = (200 * real k + n) / (2 * n)"
    using n by (simp add: field_simps)
  then have "100 * real k / real (k + m) + 1 / 2 = real (200 * k + (k + m)) / real (2 * (k + m))"
    by (simp add: n_def)
  then have "spec_percentage k m = \<lfloor>real (200 * k + (k + m)) / real (2 * (k + m))\<rfloor>"
    by (simp add: spec_percentage_def Math_round_def)
  then show ?thesis
    by (simp only: floor_divide_of_nat_eq)
qed

text \<open>
  For a session that started at zero, after a sequence of accepted calls with \<open>k\<close> correct and
  \<open>m\<close> incorrect submissions, the tallies are \<open>k\<close> and \<open>m\<close>, and the percentage is the
  specification's wherever \<open>100 * k / (k + m)\<close> is not half-way between two integers.
\<close>

lemma percentage_matches_spec:
  assumes "findSession sessionId uid d = Some s"
    and "correct (score s) = 0" and "incorrect (score s) = 0"
    and "recordOutcomes uid sessionId calls d = Some d'"
    and "calls \<noteq> []" and "length calls < 2 ^ 40"
    and "(200 * corrects calls + length calls) mod (2 * length calls) \<noteq> 0"
  shows "\<exists>s'. findSession sessionId uid d' = Some s'
     \<and> correct (score s') = corrects calls \<and> incorrect (score s') = incorrects calls
     \<and> percentage (score s') = Some (spec_percentage (corrects calls) (incorrects calls))"
proof -
  have l: "corrects calls + incorrects calls = length calls"
    by (rule corrects_incorrects)
  have p: "0 < length calls"
    using assms(5) by simp
  have "corrects calls \<le> length calls"
    using l by linarith
  with p assms(6,7) have "calcPercentage (corrects calls) (length calls)
      = int ((200 * corrects calls + length calls) div (2 * length calls))"
    by (intro calcPercentage_off_tie)
  also have "\<dots> = spec_percentage (corrects calls) (incorrects calls)"
    using p spec_percentage_div[of "corrects calls" "incorrects calls"] by (simp add: l)
  finally show ?thesis
    using score_after_outcomes[OF assms(1-5)] by (simp add: l)
qed

section \<open>The behaviour of the routes\<close>

text \<open>
  C2. For a deck the caller may read, POST /study/:deckId on a deck with no flashcard answers
  400 \<^verbatim>\<open>No flashcards found in this deck\<close> and stores nothing. On a deck with \<open>N \<ge> 1\<close>
  flashcards it stores and returns a session that has exactly \<open>N\<close> card records, each with
  \<open>isCorrect\<close> null, \<open>timeSpent\<close> 0 and \<open>attempts\<close> 0, and the score zero, zero, undefined. The
  shuffle is any function that keeps the length of the list.
\<close>

theorem startSession_records:
  assumes "findDeckForUser deckId uid d = Some k"
    and "\<forall>xs. length (shuffle xs) = length xs"
  shows "(flashcardCount deckId d = 0 \<longrightarrow>
            startSession shuffle newId now uid deckId d = (Inl EmptyDeck, d))
       \<and> (1 \<le> flashcardCount deckId d \<longrightarrow>
            (\<exists>s. startSession shuffle newId now uid deckId d
                    = (Inr s, d\<lparr>sessionColl := sessionColl d @ [s]\<rparr>)
               \<and> length (flashcards s) = flashcardCount deckId d
               \<and> (\<forall>c\<in>set (flashcards s). isCorrect c = None \<and> timeSpent c = 0 \<and> attempts c = 0)
               \<and> score s = \<lparr>correct = 0, incorrect = 0, percentage = None\<rparr>))"
  using assms
  by (auto simp: startSession_def flashcardCount_def cardsOfDeck_def Let_def newSession_def
      unanswered_def)

theorem startSession_records_witness:
  "findDeckForUser 1 7 ex_db = Some ex_deck \<and> flashcardCount 1 ex_db = 2
   \<and> length (flashcards (projr (fst (startSession rev 11 1000 7 1 ex_db)))) = 2
   \<and> map isCorrect (flashcards (projr (fst (startSession rev 11 1000 7 1 ex_db)))) = [None, None]
   \<and> sessionColl (snd (startSession rev 11 1000 7 1 ex_db))
        = [projr (fst (startSession rev 11 1000 7 1 ex_db))]
   \<and> findDeckForUser 2 7 ex_db = Some ex_empty_deck \<and> flashcardCount 2 ex_db = 0
   \<and> startSession rev 11 1000 7 2 ex_db = (Inl EmptyDeck, ex_db)"
proof -
  have f1: "findDeckForUser 1 7 ex_db = Some ex_deck"
    and f2: "findDeckForUser 2 7 ex_db = Some ex_empty_deck"
    by (simp_all add: findDeckForUser_def ex_db_def ex_deck_def ex_empty_deck_def)
  have c1: "flashcardCount 1 ex_db = 2" and c2: "flashcardCount 2 ex_db = 0"
    by (simp_all add: flashcardCount_def ex_db_def ex_card_def)
  have sh: "\<forall>xs::flashcard list. length (rev xs) = length xs"
    by simp
  from startSession_records[OF f1 sh, of 11 1000] c1
  obtain s where s: "startSession rev 11 1000 7 1 ex_db = (Inr s, ex_db\<lparr>sessionColl := sessionColl ex_db @ [s]\<rparr>)"
    and l: "length (flashcards s) = 2"
    and u: "\<forall>c\<in>set (flashcards s). isCorrect c = None \<and> timeSpent c = 0 \<and> attempts c = 0"
    by auto
  from l obtain a b where "flashcards s = [a, b]"
    by (auto simp: length_Suc_conv numeral_2_eq_2)
  with u have m: "map isCorrect (flashcards s) = [None, None]"
    by simp
  have p: "sessionColl (snd (startSession rev 11 1000 7 1 ex_db)) = [s]"
    unfolding s by (simp add: ex_db_def)
  from startSession_records[OF f2 sh, of 11 1000] c2
  have e: "startSession rev 11 1000 7 2 ex_db = (Inl EmptyDeck, ex_db)"
    by simp
  have "projr (fst (startSession rev 11 1000 7 1 ex_db)) = s"
    unfolding s by simp
  with f1 f2 c1 c2 l m p e show ?thesis
    by simp
qed

text \<open>
  C6, as the code has it. When the increment of the flashcard's statistics fails during
  PUT /study/:sessionId on a card of the session, the call answers 500 and the store is as
  before: the session update is not saved.
\<close>

theorem recordOutcome_increment_fails:
  assumes "findSession sessionId uid d = Some s"
    and "flashcardId \<in> flashcard ` set (flashcards s)"
  shows "recordOutcome False uid sessionId flashcardId b t d = (Inl ServerError, d)"
proof -
  have "findIndex (\<lambda>c. flashcard c = flashcardId) (flashcards s) \<noteq> None"
    using assms(2) by (auto simp: findIndex_None_iff)
  with assms(1) show ?thesis
    by (auto simp: recordOutcome_def Let_def)
qed

theorem recordOutcome_increment_fails_witness:
  "findSession 10 7 ex_db_open = Some ex_session
   \<and> 4 \<in> flashcard ` set (flashcards ex_session)
   \<and> recordOutcome False 7 10 4 True 2 ex_db_open = (Inl ServerError, ex_db_open)"
proof -
  have f: "findSession 10 7 ex_db_open = Some ex_session"
    by (simp add: findSession_def ex_db_open_def ex_session_def)
  have n: "4 \<in> flashcard ` set (flashcards ex_session)"
    by (simp add: ex_session_def)
  from f n recordOutcome_increment_fails[OF f n] show ?thesis
    by simp
qed

text \<open>
  C6, as stated, fails: with the increment failing, the call on card 4 of session 10 does
  not succeed, and the stored session is the one from before the call.
\<close>

theorem recordOutcome_not_fire_and_forget:
  "findSession 10 7 ex_db_open = Some ex_session
   \<and> map flashcard (flashcards ex_session) = [3, 4]
   \<and> fst (recordOutcome False 7 10 4 True 2 ex_db_open) = Inl ServerError
   \<and> sessionColl (snd (recordOutcome False 7 10 4 True 2 ex_db_open)) = [ex_session]"
  by (simp add: recordOutcome_def findSession_def ex_db_open_def ex_session_def Let_def)

text \<open>
  C7. For a session of the caller and a \<open>flashcardId\<close> that none of its card records
  carries, PUT /study/:sessionId answers 400 \<^verbatim>\<open>Flashcard not found in this session\<close> and
  leaves the store, and with it the session's score and card records, unchanged.
\<close>

theorem recordOutcome_unknown_card:
  assumes "findSession sessionId uid d = Some s"
    and "flashcardId \<notin> flashcard ` set (flashcards s)"
  shows "recordOutcome incOk uid sessionId flashcardId b t d = (Inl InvalidReference, d)"
proof -
  have "findIndex (\<lambda>c. flashcard c = flashcardId) (flashcards s) = None"
    using assms(2) by (auto simp: findIndex_None_iff)
  with assms(1) show ?thesis
    by (simp add: recordOutcome_def)
qed

theorem recordOutcome_unknown_card_witness:
  "findSession 10 7 ex_db_open = Some ex_session
   \<and> 99 \<notin> flashcard ` set (flashcards ex_session)
   \<and> recordOutcome True 7 10 99 True 2 ex_db_open = (Inl InvalidReference, ex_db_open)"
proof -
  have f: "findSession 10 7 ex_db_open = Some ex_session"
    by (simp add: findSession_def ex_db_open_def ex_session_def)
  have n: "99 \<notin> flashcard ` set (flashcards ex_session)"
    by (simp add: ex_session_def)
  from f n recordOutcome_unknown_card[OF f n] show ?thesis
    by simp
qed

text \<open>
  C3, as the code has it. PUT /study/:sessionId never reads \<open>isCompleted\<close>: on a completed
  session of the caller a request is handled as on an open one. A \<open>flashcardId\<close> that is no
  MongoId is refused by the validation, with 400. A MongoId that is not the \<^verbatim>\<open>toString()\<close> of
  the reference of a card record of the session is answered 400
  \<^verbatim>\<open>Flashcard not found in this session\<close>, and so is the identifier of a card of the session
  spelled in upper case; nothing changes. With the string of a card record, the request
  answers 500 and changes nothing when the increment of the flashcard's statistics fails;
  when the increment succeeds it is accepted: it overwrites the first card record with that
  string, adds one to the tally, saves the session, and leaves \<open>isCompleted\<close>, \<open>endTime\<close>
  and \<open>totalDuration\<close> as they were.
\<close>

theorem recordOutcome_on_completed:
  assumes "findSession sessionId uid d = Some s"
    and "isCompleted s"
  shows "(\<not> isMongoId fid \<longrightarrow>
            recordOutcomeRequest incOk uid sessionId fid b t d = (Inl InvalidArgument, d))
     \<and> (isMongoId fid \<and> fid \<notin> (\<lambda>c. toString (flashcard c)) ` set (flashcards s) \<longrightarrow>
            recordOutcomeRequest incOk uid sessionId fid b t d = (Inl InvalidReference, d))
     \<and> (\<forall>x\<in>flashcard ` set (flashcards s). map upperCase (toString x) \<noteq> toString x \<longrightarrow>
            recordOutcomeRequest incOk uid sessionId (map upperCase (toString x)) b t d
              = (Inl InvalidReference, d))
     \<and> (fid \<in> (\<lambda>c. toString (flashcard c)) ` set (flashcards s) \<longrightarrow>
            recordOutcomeRequest False uid sessionId fid b t d = (Inl ServerError, d)
          \<and> (\<exists>s' d' i. recordOutcomeRequest True uid sessionId fid b t d = (Inr s', d')
               \<and> findSession sessionId uid d' = Some s'
               \<and> findIndex (\<lambda>c. toString (flashcard c) = fid) (flashcards s) = Some i
               \<and> flashcards s' = (flashcards s)[i := answerCard b t (flashcards s ! i)]
               \<and> correct (score s') + incorrect (score s')
                   = correct (score s) + incorrect (score s) + 1
               \<and> isCompleted s' \<and> endTime s' = endTime s
               \<and> totalDuration s' = totalDuration s))"
proof (intro conjI impI ballI)
  assume "\<not> isMongoId fid"
  then show "recordOutcomeRequest incOk uid sessionId fid b t d = (Inl InvalidArgument, d)"
    by (simp add: recordOutcomeRequest_def)
next
  assume a: "isMongoId fid \<and> fid \<notin> (\<lambda>c. toString (flashcard c)) ` set (flashcards s)"
  from assms(1) a[THEN conjunct1] a[THEN conjunct2]
  show "recordOutcomeRequest incOk uid sessionId fid b t d = (Inl InvalidReference, d)"
    by (rule recordOutcomeRequest_unmatched)
next
  fix x
  assume "x \<in> flashcard ` set (flashcards s)" and u: "map upperCase (toString x) \<noteq> toString x"
  have "map upperCase (toString x) \<notin> (\<lambda>c. toString (flashcard c)) ` set (flashcards s)"
    using upper_not_toString[OF u] by auto
  with assms(1) isMongoId_upper[of x]
  show "recordOutcomeRequest incOk uid sessionId (map upperCase (toString x)) b t d
      = (Inl InvalidReference, d)"
    by (intro recordOutcomeRequest_unmatched)
next
  assume m: "fid \<in> (\<lambda>c. toString (flashcard c)) ` set (flashcards s)"
  then obtain i where i: "findIndex (\<lambda>c. toString (flashcard c) = fid) (flashcards s) = Some i"
    using findIndex_None_iff[of "\<lambda>c. toString (flashcard c) = fid" "flashcards s"]
    by (cases "findIndex (\<lambda>c. toString (flashcard c) = fid) (flashcards s)") auto
  note r = recordOutcomeRequest_matched[OF assms(1) i]
  have "flashcard (flashcards s ! i) \<in> flashcard ` set (flashcards s)"
    using r(3) by simp
  from recordOutcome_no_increment[OF assms(1) this]
  show "recordOutcomeRequest False uid sessionId fid b t d = (Inl ServerError, d)"
    by (simp add: r(1))
next
  assume m: "fid \<in> (\<lambda>c. toString (flashcard c)) ` set (flashcards s)"
  then obtain i where i: "findIndex (\<lambda>c. toString (flashcard c) = fid) (flashcards s) = Some i"
    using findIndex_None_iff[of "\<lambda>c. toString (flashcard c) = fid" "flashcards s"]
    by (cases "findIndex (\<lambda>c. toString (flashcard c) = fid) (flashcards s)") auto
  note r = recordOutcomeRequest_matched[OF assms(1) i]
  from recordOutcome_ok[OF assms(1) r(2), of b t] obtain s' d'
    where step: "recordOutcome True uid sessionId (flashcard (flashcards s ! i)) b t d = (Inr s', d')"
    by blast
  note st = recordOutcome_step[OF assms(1) step]
  from st(2) r(2) have "flashcards s' = (flashcards s)[i := answerCard b t (flashcards s ! i)]"
    by simp
  with step st(1,3,4,6) assms(2) i
  show "\<exists>s' d' i. recordOutcomeRequest True uid sessionId fid b t d = (Inr s', d')
               \<and> findSession sessionId uid d' = Some s'
               \<and> findIndex (\<lambda>c. toString (flashcard c) = fid) (flashcards s) = Some i
               \<and> flashcards s' = (flashcards s)[i := answerCard b t (flashcards s ! i)]
               \<and> correct (score s') + incorrect (score s')
                   = correct (score s) + incorrect (score s) + 1
               \<and> isCompleted s' \<and> endTime s' = endTime s
               \<and> totalDuration s' = totalDuration s"
    by (auto simp: r(1))
qed

theorem recordOutcome_on_completed_witness:
  "findSession 12 7 ex_db_hex = Some ex_hex_session \<and> isCompleted ex_hex_session
   \<and> \<not> isMongoId ''card''
   \<and> recordOutcomeRequest True 7 12 ''card'' True 2 ex_db_hex = (Inl InvalidArgument, ex_db_hex)
   \<and> isMongoId ''000000000000000000000063''
   \<and> map (\<lambda>c. toString (flashcard c)) (flashcards ex_hex_session)
       = [''000000000000000000000004'', ''0000000000000000000000ab'']
   \<and> recordOutcomeRequest True 7 12 ''000000000000000000000063'' True 2 ex_db_hex
       = (Inl InvalidReference, ex_db_hex)
   \<and> map upperCase (toString 171) = ''0000000000000000000000AB''
   \<and> recordOutcomeRequest True 7 12 ''0000000000000000000000AB'' True 2 ex_db_hex
       = (Inl InvalidReference, ex_db_hex)
   \<and> recordOutcomeRequest False 7 12 ''0000000000000000000000ab'' True 2 ex_db_hex
       = (Inl ServerError, ex_db_hex)
   \<and> isCompleted (projr (fst (recordOutcomeRequest True 7 12 ''0000000000000000000000ab'' True 2 ex_db_hex)))
   \<and> map attempts (flashcards (projr (fst
        (recordOutcomeRequest True 7 12 ''0000000000000000000000ab'' True 2 ex_db_hex)))) = [0, 1]
   \<and> correct (score (projr (fst
        (recordOutcomeRequest True 7 12 ''0000000000000000000000ab'' True 2 ex_db_hex))))
      + incorrect (score (projr (fst
        (recordOutcomeRequest True 7 12 ''0000000000000000000000ab'' True 2 ex_db_hex)))) = 1"
proof -
  have f: "findSession 12 7 ex_db_hex = Some ex_hex_session"
    by (simp add: findSession_def ex_db_hex_def ex_hex_session_def)
  have c: "isCompleted ex_hex_session"
    by (simp add: ex_hex_session_def)
  have ts: "toString 4 = ''000000000000000000000004''" "toString 171 = ''0000000000000000000000ab''"
    by code_simp+
  have up: "map upperCase (toString 171) = ''0000000000000000000000AB''"
    by code_simp
  have v: "\<not> isMongoId ''card''" "isMongoId ''000000000000000000000063''"
    by code_simp+
  have m: "map (\<lambda>c. toString (flashcard c)) (flashcards ex_hex_session)
       = [''000000000000000000000004'', ''0000000000000000000000ab'']"
    by (simp add: ex_hex_session_def ts)
  then have img: "(\<lambda>c. toString (flashcard c)) ` set (flashcards ex_hex_session)
      = {''000000000000000000000004'', ''0000000000000000000000ab''}"
    unfolding set_map[symmetric] by simp
  have fl: "flashcard ` set (flashcards ex_hex_session) = {4, 171}"
    by (simp add: ex_hex_session_def)
  note t = recordOutcome_on_completed[OF f c]
  note t1 = t[THEN conjunct1, THEN mp]
    and t2 = t[THEN conjunct2, THEN conjunct1, THEN mp, OF conjI]
    and t3 = t[THEN conjunct2, THEN conjunct2, THEN conjunct1, THEN bspec, THEN mp]
    and t4 = t[THEN conjunct2, THEN conjunct2, THEN conjunct2, THEN mp]
  have r1: "recordOutcomeRequest True 7 12 ''card'' True 2 ex_db_hex = (Inl InvalidArgument, ex_db_hex)"
    using v(1) by (rule t1)
  have "''000000000000000000000063'' \<notin> (\<lambda>c. toString (flashcard c)) ` set (flashcards ex_hex_session)"
    unfolding img by simp
  with v(2)
  have r2: "recordOutcomeRequest True 7 12 ''000000000000000000000063'' True 2 ex_db_hex
       = (Inl InvalidReference, ex_db_hex)"
    by (rule t2)
  have "171 \<in> flashcard ` set (flashcards ex_hex_session)"
    unfolding fl by simp
  moreover have "map upperCase (toString 171) \<noteq> toString 171"
    by code_simp
  ultimately have "recordOutcomeRequest True 7 12 (map upperCase (toString 171)) True 2 ex_db_hex
       = (Inl InvalidReference, ex_db_hex)"
    by (rule t3)
  then have r3: "recordOutcomeRequest True 7 12 ''0000000000000000000000AB'' True 2 ex_db_hex
       = (Inl InvalidReference, ex_db_hex)"
    unfolding up .
  have "''0000000000000000000000ab'' \<in> (\<lambda>c. toString (flashcard c)) ` set (flashcards ex_hex_session)"
    unfolding img by simp
  from t4[OF this, of True 2] obtain s' d' i where
    r4: "recordOutcomeRequest False 7 12 ''0000000000000000000000ab'' True 2 ex_db_hex
       = (Inl ServerError, ex_db_hex)"
    and r5: "recordOutcomeRequest True 7 12 ''0000000000000000000000ab'' True 2 ex_db_hex = (Inr s', d')"
    and i: "findIndex (\<lambda>c. toString (flashcard c) = ''0000000000000000000000ab'')
              (flashcards ex_hex_session) = Some i"
    and fs: "flashcards s' = (flashcards ex_hex_session)[i := answerCard True 2 (flashcards ex_hex_session ! i)]"
    and sc: "correct (score s') + incorrect (score s')
       = correct (score ex_hex_session) + incorrect (score ex_hex_session) + 1"
    and co: "isCompleted s'"
    by blast
  from i have "i = 1"
    by (simp add: ex_hex_session_def ts)
  with fs have at: "map attempts (flashcards s') = [0, 1]"
    by (simp add: ex_hex_session_def answerCard_def)
  from sc have sc': "correct (score s') + incorrect (score s') = 1"
    by (simp add: ex_hex_session_def)
  have p: "projr (fst (recordOutcomeRequest True 7 12 ''0000000000000000000000ab'' True 2 ex_db_hex)) = s'"
    unfolding r5 by simp
  show ?thesis
    unfolding p by (intro conjI f c v m up r1 r2 r3 r4 co at sc')
qed

text \<open>
  C3, as stated, fails: session 10 is completed, yet answering its card 4 succeeds and the
  stored session has another score and other card records than before.
\<close>

theorem recordOutcome_completed_accepted:
  "isCompleted ex_completed
   \<and> findSession 10 7 ex_db_done = Some ex_completed
   \<and> fst (recordOutcome True 7 10 4 True 2 ex_db_done) = Inr (ex_answered ex_completed)
   \<and> sessionColl (snd (recordOutcome True 7 10 4 True 2 ex_db_done)) = [ex_answered ex_completed]
   \<and> score (ex_answered ex_completed) \<noteq> score ex_completed
   \<and> flashcards (ex_answered ex_completed) \<noteq> flashcards ex_completed"
proof -
  have "js_add 0 2 = 2"
    using rd_of_int[of 2] by (simp add: js_add_def)
  then show ?thesis
    by (simp add: recordOutcome_def findSession_def saveSession_def Let_def ex_defs
        answerCard_def tally_def calcPercentage_all)
qed

text \<open>
  C4, as the code has it. PUT /study/:sessionId/complete never answers that the session is
  already completed: on a session of the caller a second call is handled like the first.
  Each call stores the session as completed, with its own time as \<open>endTime\<close>; the second
  puts the whole seconds from the start of the session to its own time into
  \<open>totalDuration\<close>. When the score has a percentage, both calls succeed and the second
  increments the deck's statistics once more. When it has none (no outcome was recorded),
  both calls answer 500 after the session is stored, and the decks are untouched.
\<close>

theorem completeSession_twice:
  assumes "findSession sessionId uid d = Some s"
    and "startTime s \<le> t2" and "t2 - startTime s < 2 ^ 53"
  shows "\<exists>r1 d1 r2 d2 s1 s2.
       completeSession t1 uid sessionId d = (r1, d1)
     \<and> completeSession t2 uid sessionId d1 = (r2, d2)
     \<and> findSession sessionId uid d1 = Some s1 \<and> isCompleted s1 \<and> endTime s1 = Some t1
     \<and> findSession sessionId uid d2 = Some s2 \<and> isCompleted s2 \<and> endTime s2 = Some t2
     \<and> totalDuration s2 = Some ((t2 - startTime s) div 1000)
     \<and> (percentage (score s) = None \<longrightarrow>
          r1 = Inl ServerError \<and> r2 = Inl ServerError \<and> deckColl d2 = deckColl d)
     \<and> (\<forall>p. percentage (score s) = Some p \<longrightarrow>
          r1 = Inr s1 \<and> r2 = Inr s2
          \<and> deckColl d2 = updateOne (\<lambda>k. deck_id k = session_deck s)
               (incDeckStudy ((t2 - startTime s) div 1000 div 60) p) (deckColl d1))"
proof -
  define t where "t = (t2 - startTime s) div 1000"
  have dur: "calcDuration t2 (startTime s) = t"
    unfolding t_def using assms(2,3) by (rule calcDuration_exact)
  have "0 \<le> t" and "t < 2 ^ 44"
    using assms(2,3) by (simp_all add: t_def)
  then have m: "Math_floor (js_div (of_int t) 60) = t div 60"
    by (rule minutes_exact)
  show ?thesis
  proof (cases "percentage (score s)")
    case None
    from completeSession_undefined[OF assms(1) None, of t1] obtain s1 d1 where
      c1: "completeSession t1 uid sessionId d = (Inl ServerError, d1)"
      and s1: "s1 = s\<lparr>endTime := Some t1, totalDuration := Some (calcDuration t1 (startTime s)),
                isCompleted := True\<rparr>"
      and f1: "findSession sessionId uid d1 = Some s1"
      and k1: "deckColl d1 = deckColl d"
      by blast
    have p1: "percentage (score s1) = None"
      using None by (simp add: s1)
    from completeSession_undefined[OF f1 p1, of t2] obtain s2 d2 where
      c2: "completeSession t2 uid sessionId d1 = (Inl ServerError, d2)"
      and s2: "s2 = s1\<lparr>endTime := Some t2, totalDuration := Some (calcDuration t2 (startTime s1)),
                isCompleted := True\<rparr>"
      and f2: "findSession sessionId uid d2 = Some s2"
      and k2: "deckColl d2 = deckColl d1"
      by blast
    show ?thesis
      using c1 c2 f1 f2 k1 k2 None
      by (intro exI[of _ "Inl ServerError"] exI[of _ d1] exI[of _ d2] exI[of _ s1] exI[of _ s2])
        (simp add: s1 s2 dur t_def)
  next
    case (Some p)
    from completeSession_ok[OF assms(1) Some, of t1] obtain s1 d1 where
      c1: "completeSession t1 uid sessionId d = (Inr s1, d1)"
      and s1: "s1 = s\<lparr>endTime := Some t1, totalDuration := Some (calcDuration t1 (startTime s)),
                isCompleted := True\<rparr>"
      and f1: "findSession sessionId uid d1 = Some s1"
      by blast
    have p1: "percentage (score s1) = Some p"
      using Some by (simp add: s1)
    from completeSession_ok[OF f1 p1, of t2] obtain s2 d2 where
      c2: "completeSession t2 uid sessionId d1 = (Inr s2, d2)"
      and s2: "s2 = s1\<lparr>endTime := Some t2, totalDuration := Some (calcDuration t2 (startTime s1)),
                isCompleted := True\<rparr>"
      and f2: "findSession sessionId uid d2 = Some s2"
      and k2: "deckColl d2 = updateOne (\<lambda>k. deck_id k = session_deck s1)
            (incDeckStudy (Math_floor (js_div (of_int (calcDuration t2 (startTime s1))) 60)) p)
            (deckColl d1)"
      by blast
    show ?thesis
      using c1 c2 f1 f2 k2 Some
      by (intro exI[of _ "Inr s1"] exI[of _ d1] exI[of _ "Inr s2"] exI[of _ d2] exI[of _ s1]
          exI[of _ s2])
        (simp add: s1 s2 dur m, simp add: t_def)
  qed
qed

theorem completeSession_twice_witness:
  "findSession 10 7 ex_db_open = Some ex_session
   \<and> startTime ex_session \<le> 125000 \<and> 125000 - startTime ex_session < 2 ^ 53
   \<and> percentage (score ex_session) = Some 100
   \<and> isCompleted (projr (fst (completeSession 5000 7 10 ex_db_open)))
   \<and> totalDuration (projr (fst (completeSession 125000 7 10
         (snd (completeSession 5000 7 10 ex_db_open))))) = Some 125
   \<and> endTime (projr (fst (completeSession 125000 7 10
         (snd (completeSession 5000 7 10 ex_db_open))))) = Some 125000
   \<and> findSession 11 7 ex_db_fresh = Some ex_fresh
   \<and> startTime ex_fresh \<le> 125000 \<and> 125000 - startTime ex_fresh < 2 ^ 53
   \<and> percentage (score ex_fresh) = None
   \<and> fst (completeSession 5000 7 11 ex_db_fresh) = Inl ServerError
   \<and> fst (completeSession 125000 7 11 (snd (completeSession 5000 7 11 ex_db_fresh)))
        = Inl ServerError
   \<and> map_option totalDuration (findSession 11 7
        (snd (completeSession 125000 7 11 (snd (completeSession 5000 7 11 ex_db_fresh)))))
        = Some (Some 125)"
proof -
  have f: "findSession 10 7 ex_db_open = Some ex_session"
    by (simp add: findSession_def ex_db_open_def ex_session_def)
  have a: "startTime ex_session \<le> 125000" and b: "125000 - startTime ex_session < 2 ^ 53"
    and p: "percentage (score ex_session) = Some 100"
    by (simp_all add: ex_session_def)
  from completeSession_twice[OF f a b, of 5000] p obtain d1 d2 s1 s2 where
    "completeSession 5000 7 10 ex_db_open = (Inr s1, d1)"
    "completeSession 125000 7 10 d1 = (Inr s2, d2)"
    "isCompleted s1" "endTime s2 = Some 125000"
    "totalDuration s2 = Some ((125000 - startTime ex_session) div 1000)"
    by blast
  then have open_session:
    "isCompleted (projr (fst (completeSession 5000 7 10 ex_db_open)))
     \<and> totalDuration (projr (fst (completeSession 125000 7 10
           (snd (completeSession 5000 7 10 ex_db_open))))) = Some 125
     \<and> endTime (projr (fst (completeSession 125000 7 10
           (snd (completeSession 5000 7 10 ex_db_open))))) = Some 125000"
    by (simp add: ex_session_def)
  have g: "findSession 11 7 ex_db_fresh = Some ex_fresh"
    by (simp add: findSession_def ex_db_fresh_def ex_fresh_def newSession_def)
  have a': "startTime ex_fresh \<le> 125000" and b': "125000 - startTime ex_fresh < 2 ^ 53"
    and q: "percentage (score ex_fresh) = None"
    by (simp_all add: ex_fresh_def newSession_def)
  from completeSession_twice[OF g a' b', of 5000] q obtain e1 e2 u2 where
    "completeSession 5000 7 11 ex_db_fresh = (Inl ServerError, e1)"
    "completeSession 125000 7 11 e1 = (Inl ServerError, e2)"
    "findSession 11 7 e2 = Some u2"
    "totalDuration u2 = Some ((125000 - startTime ex_fresh) div 1000)"
    by blast
  then have fresh_session:
    "fst (completeSession 5000 7 11 ex_db_fresh) = Inl ServerError
     \<and> fst (completeSession 125000 7 11 (snd (completeSession 5000 7 11 ex_db_fresh)))
          = Inl ServerError
     \<and> map_option totalDuration (findSession 11 7
          (snd (completeSession 125000 7 11 (snd (completeSession 5000 7 11 ex_db_fresh)))))
          = Some (Some 125)"
    by (simp add: ex_fresh_def newSession_def)
  from f a b p g a' b' q open_session fresh_session show ?thesis
    by simp
qed

text \<open>
  C4, as stated, fails: session 10 is completed at time 5000 with a duration of 5 seconds;
  completing it again at time 125000 succeeds and stores a duration of 125 seconds.
\<close>

theorem completeSession_no_AlreadyCompleted:
  "completeSession 5000 7 10 ex_db_open = (Inr ex_completed, ex_db_done)
   \<and> isCompleted ex_completed \<and> totalDuration ex_completed = Some 5
   \<and> fst (completeSession 125000 7 10 ex_db_done)
       = Inr (ex_completed\<lparr>endTime := Some 125000, totalDuration := Some 125\<rparr>)
   \<and> sessionColl (snd (completeSession 125000 7 10 ex_db_done))
       = [ex_completed\<lparr>endTime := Some 125000, totalDuration := Some 125\<rparr>]"
proof -
  have c: "calcDuration 5000 0 = 5" "calcDuration 125000 0 = 125"
    using calcDuration_exact[of 0 5000] calcDuration_exact[of 0 125000] by simp_all
  have m: "Math_floor (js_div 5 60) = 0" "Math_floor (js_div 125 60) = 2"
    using minutes_exact[of 5] minutes_exact[of 125] by simp_all
  show ?thesis
    by (simp add: completeSession_def findSession_def saveSession_def incDeckStudy_def Let_def
        ex_defs c m)
qed

text \<open>
  C5. For a session of the caller whose score has a percentage \<open>p\<close>, completed at a time
  \<open>now\<close> not before its start (and less than \<open>2 ^ 53\<close> milliseconds after it),
  PUT /study/:sessionId/complete succeeds. The session it returns, and the session that the
  store then holds under that identifier, is the former one with \<open>endTime\<close> set to \<open>now\<close>,
  \<open>isCompleted\<close> to true and \<open>totalDuration\<close> to \<open>\<lfloor>(endTime - startTime) / 1000\<rfloor>\<close>; no other
  session and no card changes. The deck of the session has its \<open>totalStudyTime\<close> incremented
  by \<open>\<lfloor>totalDuration / 60\<rfloor>\<close> and its \<open>averageScore\<close> by \<open>p\<close>, and no other deck changes.
\<close>

theorem completeSession_effect:
  assumes "findSession sessionId uid d = Some s"
    and "startTime s \<le> now" and "now - startTime s < 2 ^ 53"
    and "percentage (score s) = Some p"
  shows "\<exists>s' d'. completeSession now uid sessionId d = (Inr s', d')
     \<and> s' = s\<lparr>endTime := Some now,
              totalDuration := Some ((now - startTime s) div 1000),
              isCompleted := True\<rparr>
     \<and> findSession sessionId uid d' = Some s'
     \<and> sessionColl d' = updateOne (\<lambda>x. session_id x = sessionId) (\<lambda>_. s') (sessionColl d)
     \<and> cardColl d' = cardColl d
     \<and> deckColl d' =
         updateOne (\<lambda>k. deck_id k = session_deck s)
           (\<lambda>k. k\<lparr>statistics := (statistics k)
              \<lparr>totalStudyTime := totalStudyTime (statistics k) + (now - startTime s) div 1000 div 60,
               averageScore := averageScore (statistics k) + p\<rparr>\<rparr>)
           (deckColl d)
     \<and> (\<forall>k. find (\<lambda>k. deck_id k = session_deck s) (deckColl d) = Some k \<longrightarrow>
          (\<exists>k'. find (\<lambda>k. deck_id k = session_deck s) (deckColl d') = Some k'
             \<and> totalStudyTime (statistics k')
                 = totalStudyTime (statistics k) + (now - startTime s) div 1000 div 60
             \<and> averageScore (statistics k') = averageScore (statistics k) + p
             \<and> totalCards (statistics k') = totalCards (statistics k)))"
proof -
  define t where "t = (now - startTime s) div 1000"
  define s' where "s' = s\<lparr>endTime := Some now, totalDuration := Some t, isCompleted := True\<rparr>"
  define f :: "deck \<Rightarrow> deck" where "f = (\<lambda>k. k\<lparr>statistics := (statistics k)
              \<lparr>totalStudyTime := totalStudyTime (statistics k) + t div 60,
               averageScore := averageScore (statistics k) + p\<rparr>\<rparr>)"
  define d' where "d' = (saveSession s' d)\<lparr>deckColl :=
      updateOne (\<lambda>k. deck_id k = session_deck s) f (deckColl d)\<rparr>"
  have dur: "calcDuration now (startTime s) = t"
    unfolding t_def using assms(2,3) by (rule calcDuration_exact)
  have "0 \<le> t" and "t < 2 ^ 44"
    using assms(2,3) by (simp_all add: t_def)
  then have "Math_floor (js_div (of_int t) 60) = t div 60"
    by (rule minutes_exact)
  then have c: "completeSession now uid sessionId d = (Inr s', d')"
    using assms(1,4) dur
    by (simp add: completeSession_def Let_def incDeckStudy_def[abs_def] saveSession_def
        s'_def d'_def f_def)
  have st: "findSession sessionId uid d' = Some s'"
    unfolding d'_def s'_def using completeSession_saved[OF assms(1)] by simp
  have ss: "sessionColl d' = updateOne (\<lambda>x. session_id x = sessionId) (\<lambda>_. s') (sessionColl d)"
    using findSession_ids[OF assms(1)] by (simp add: d'_def saveSession_def s'_def)
  have cc: "cardColl d' = cardColl d" and dd: "deckColl d' = updateOne (\<lambda>k. deck_id k = session_deck s) f (deckColl d)"
    by (simp_all add: d'_def saveSession_def)
  have "find (\<lambda>k. deck_id k = session_deck s) (updateOne (\<lambda>k. deck_id k = session_deck s) f (deckColl d))
      = map_option f (find (\<lambda>k. deck_id k = session_deck s) (deckColl d))"
    by (rule find_updateOne_id) (simp add: f_def)
  then have fk: "\<forall>k. find (\<lambda>k. deck_id k = session_deck s) (deckColl d) = Some k \<longrightarrow>
          (\<exists>k'. find (\<lambda>k. deck_id k = session_deck s) (deckColl d') = Some k'
             \<and> totalStudyTime (statistics k') = totalStudyTime (statistics k) + t div 60
             \<and> averageScore (statistics k') = averageScore (statistics k) + p
             \<and> totalCards (statistics k') = totalCards (statistics k))"
    by (simp add: dd f_def)
  from c st ss cc dd fk show ?thesis
    unfolding s'_def f_def t_def by blast
qed

theorem completeSession_effect_witness:
  "findSession 10 7 ex_db_open = Some ex_session
   \<and> startTime ex_session \<le> 125000 \<and> 125000 - startTime ex_session < 2 ^ 53
   \<and> percentage (score ex_session) = Some 100
   \<and> find (\<lambda>k. deck_id k = session_deck ex_session) (deckColl ex_db_open) = Some ex_deck
   \<and> fst (completeSession 125000 7 10 ex_db_open)
        = Inr (ex_session\<lparr>endTime := Some 125000, totalDuration := Some 125, isCompleted := True\<rparr>)
   \<and> sessionColl (snd (completeSession 125000 7 10 ex_db_open))
        = [ex_session\<lparr>endTime := Some 125000, totalDuration := Some 125, isCompleted := True\<rparr>]
   \<and> map statistics (deckColl (snd (completeSession 125000 7 10 ex_db_open)))
        = [\<lparr>totalCards = 2, totalStudyTime = 2, averageScore = 100\<rparr>,
           \<lparr>totalCards = 0, totalStudyTime = 0, averageScore = 0\<rparr>]"
proof -
  have f: "findSession 10 7 ex_db_open = Some ex_session"
    by (simp add: findSession_def ex_db_open_def ex_session_def)
  have a: "startTime ex_session \<le> 125000" and b: "125000 - startTime ex_session < 2 ^ 53"
    and p: "percentage (score ex_session) = Some 100"
    by (simp_all add: ex_session_def)
  have k: "find (\<lambda>k. deck_id k = session_deck ex_session) (deckColl ex_db_open) = Some ex_deck"
    by (simp add: ex_defs)
  from completeSession_effect[OF f a b p] obtain s' d' where
    c: "completeSession 125000 7 10 ex_db_open = (Inr s', d')"
    and s': "s' = ex_session\<lparr>endTime := Some 125000,
              totalDuration := Some ((125000 - startTime ex_session) div 1000),
              isCompleted := True\<rparr>"
    and ss: "sessionColl d' = updateOne (\<lambda>x. session_id x = 10) (\<lambda>_. s') (sessionColl ex_db_open)"
    and dd: "deckColl d' =
         updateOne (\<lambda>k. deck_id k = session_deck ex_session)
           (\<lambda>k. k\<lparr>statistics := (statistics k)
              \<lparr>totalStudyTime := totalStudyTime (statistics k)
                  + (125000 - startTime ex_session) div 1000 div 60,
               averageScore := averageScore (statistics k) + 100\<rparr>\<rparr>)
           (deckColl ex_db_open)"
    by blast
  have "s' = ex_session\<lparr>endTime := Some 125000, totalDuration := Some 125, isCompleted := True\<rparr>"
    unfolding s' by (simp add: ex_session_def)
  moreover from this ss have "sessionColl d'
      = [ex_session\<lparr>endTime := Some 125000, totalDuration := Some 125, isCompleted := True\<rparr>]"
    by (simp add: ex_db_open_def ex_session_def)
  moreover from dd have "map statistics (deckColl d')
        = [\<lparr>totalCards = 2, totalStudyTime = 2, averageScore = 100\<rparr>,
           \<lparr>totalCards = 0, totalStudyTime = 0, averageScore = 0\<rparr>]"
    by (simp add: ex_db_open_def ex_session_def ex_deck_def ex_empty_deck_def)
  ultimately show ?thesis
    using f a b p k c by simp
qed

text \<open>
  C10. After any sequence of accepted PUT /study/:sessionId calls, \<open>score.correct +
  score.incorrect\<close> has grown by the number of calls, whatever cards they name: the number of
  card records stays the same, the attempts over all records have grown by the number of
  calls, and the record of the card named last holds the outcome submitted last. So the
  tallies count calls, not answered cards, and can exceed the number of cards.
\<close>

theorem score_counts_calls:
  assumes "findSession sessionId uid d = Some s"
    and "recordOutcomes uid sessionId calls d = Some d'"
  shows "\<exists>s'. findSession sessionId uid d' = Some s'
     \<and> correct (score s') + incorrect (score s')
         = correct (score s) + incorrect (score s) + length calls
     \<and> length (flashcards s') = length (flashcards s)
     \<and> sum_list (map attempts (flashcards s')) = sum_list (map attempts (flashcards s)) + length calls
     \<and> (calls \<noteq> [] \<longrightarrow>
          (\<exists>i. findIndex (\<lambda>c. flashcard c = fst (last calls)) (flashcards s') = Some i
             \<and> isCorrect (flashcards s' ! i) = Some (fst (snd (last calls)))))"
proof -
  from recordOutcomes_run[OF assms] obtain s' where s':
    "findSession sessionId uid d' = Some s'"
    "correct (score s') = correct (score s) + corrects calls"
    "incorrect (score s') = incorrect (score s) + incorrects calls"
    "map flashcard (flashcards s') = map flashcard (flashcards s)"
    "sum_list (map attempts (flashcards s')) = sum_list (map attempts (flashcards s)) + length calls"
    "calls \<noteq> [] \<longrightarrow> (\<exists>i. findIndex (\<lambda>c. flashcard c = fst (last calls)) (flashcards s') = Some i
           \<and> isCorrect (flashcards s' ! i) = Some (fst (snd (last calls))))"
    by blast
  from s'(4) have "length (flashcards s') = length (flashcards s)"
    by (rule map_eq_imp_length_eq)
  with s' corrects_incorrects[of calls] show ?thesis
    by (intro exI[of _ s']) simp
qed

theorem score_counts_calls_witness:
  "findSession 10 7 ex_db_open = Some ex_session
   \<and> recordOutcomes 7 10 [(3, False, 1), (3, True, 1), (3, True, 1)] ex_db_open \<noteq> None
   \<and> correct (score (the (findSession 10 7
        (the (recordOutcomes 7 10 [(3, False, 1), (3, True, 1), (3, True, 1)] ex_db_open)))))
     + incorrect (score (the (findSession 10 7
        (the (recordOutcomes 7 10 [(3, False, 1), (3, True, 1), (3, True, 1)] ex_db_open))))) = 4
   \<and> length (flashcards (the (findSession 10 7
        (the (recordOutcomes 7 10 [(3, False, 1), (3, True, 1), (3, True, 1)] ex_db_open))))) = 2
   \<and> isCorrect (hd (flashcards (the (findSession 10 7
        (the (recordOutcomes 7 10 [(3, False, 1), (3, True, 1), (3, True, 1)] ex_db_open))))))
      = Some True"
proof -
  let ?calls = "[(3, False, 1), (3, True, 1), (3, True, 1)] :: (oid \<times> bool \<times> real) list"
  have f: "findSession 10 7 ex_db_open = Some ex_session"
    by (simp add: findSession_def ex_db_open_def ex_session_def)
  have "fst ` set ?calls \<subseteq> flashcard ` set (flashcards ex_session)"
    by (simp add: ex_session_def)
  from recordOutcomes_succeeds[OF f this] obtain d'
    where r: "recordOutcomes 7 10 ?calls ex_db_open = Some d'" ..
  from score_counts_calls[OF f r] obtain s' i where
    s': "findSession 10 7 d' = Some s'"
    "correct (score s') + incorrect (score s')
       = correct (score ex_session) + incorrect (score ex_session) + length ?calls"
    "length (flashcards s') = length (flashcards ex_session)"
    and i: "findIndex (\<lambda>c. flashcard c = 3) (flashcards s') = Some i"
    "isCorrect (flashcards s' ! i) = Some True"
    by auto
  have "map flashcard (flashcards s') = map flashcard (flashcards ex_session)"
    using recordOutcomes_run[OF f r] s'(1) by auto
  then obtain a b where ab: "flashcards s' = [a, b]" "flashcard a = 3"
    by (auto simp: ex_session_def map_eq_Cons_conv)
  with i have "isCorrect a = Some True"
    by simp
  with f r s' ab show ?thesis
    by (simp add: ex_session_def)
qed


text \<open>
  C1 at 23 correct and 17 incorrect submissions on forty distinct cards of a fresh session:
  the stored tallies are 23 and 17, and the stored percentage is 57, while
  \<open>100 * 23 / 40 = 57.5\<close> rounds to 58.
\<close>

theorem percentage_23_of_40:
  "\<exists>d s. recordOutcomes 7 10 ex_calls40 (snd (startSession (\<lambda>xs. xs) 10 0 7 1 ex_db40)) = Some d
     \<and> findSession 10 7 d = Some s
     \<and> score s = \<lparr>correct = 23, incorrect = 17, percentage = Some 57\<rparr>
     \<and> spec_percentage 23 17 = 58"
proof -
  define s0 where "s0 = newSession 10 0 7 1 (map (\<lambda>i. unanswered (ex_card i 0)) [100..<140])"
  define d0 where "d0 = ex_db40\<lparr>sessionColl := [s0]\<rparr>"
  have d0: "snd (startSession (\<lambda>xs. xs) 10 0 7 1 ex_db40) = d0"
    unfolding startSession_ex_db40 d0_def s0_def by (simp only: snd_conv)
  have f: "findSession 10 7 d0 = Some s0"
    by (simp add: findSession_def d0_def s0_def newSession_def)
  have z: "correct (score s0) = 0" "incorrect (score s0) = 0"
    by (simp_all add: s0_def newSession_def)
  have "flashcard ` set (flashcards s0) = {100..<140}"
    by (simp add: s0_def newSession_def unanswered_def ex_card_def image_image del: upt_rec_numeral)
  moreover have "fst ` set ex_calls40 = {100..<123} \<union> {123..<140}"
    by (simp add: ex_calls40_def image_Un image_image del: upt_rec_numeral)
  ultimately have "fst ` set ex_calls40 \<subseteq> flashcard ` set (flashcards s0)"
    by auto
  from recordOutcomes_succeeds[OF f this] obtain d
    where r: "recordOutcomes 7 10 ex_calls40 d0 = Some d" ..
  have k: "corrects ex_calls40 = 23" and m: "incorrects ex_calls40 = 17"
    by (simp_all add: corrects_def incorrects_def ex_calls40_def filter_map o_def del: upt_rec_numeral)
  have ne: "ex_calls40 \<noteq> []"
    by (simp add: ex_calls40_def upt_conv_Cons)
  from score_after_outcomes[OF f z r ne] obtain s where
    "findSession 10 7 d = Some s" "correct (score s) = 23" "incorrect (score s) = 17"
    "percentage (score s) = Some 57"
    by (auto simp: k m calcPercentage_23_40)
  moreover have "spec_percentage 23 17 = 58"
    by (simp add: spec_percentage_def Math_round_def)
  ultimately show ?thesis
    using r unfolding d0 by (intro exI[of _ d] exI[of _ s]) (cases "score s", simp)
qed







end
